theory Spec2Isabelle
  imports Complex_Main "HOL-Library.AList" "HOL-Library.Multiset"
begin

section \<open>Emergency Skill Share: the dispatch and acceptance engine\<close>

text \<open>
  A shallow embedding of the server part of the single-file application
  (\<^verbatim>\<open>src/unnamed/part_000\<close>, lines 33--308): the three in-memory stores, the
  ranker, the dispatcher and the socket handlers.

  Conventions of the embedding.
  \<^item> JavaScript numbers are real numbers (IEEE rounding, \<open>NaN\<close> and the infinities are
    not represented; a conversion that yields \<open>NaN\<close> returns \<open>None\<close>);
    \<open>Date.now()\<close> readings are integers.
  \<^item> Strings are lists of ASCII characters.
  \<^item> A \<open>Map\<close> is an association list in insertion order with unique keys
    (\<open>Map.set\<close> on a present key keeps its position); a \<open>Set\<close> of strings
    that is iterated is a duplicate-free list in insertion order, one that is only tested with
    \<open>has\<close> is a set.
  \<^item> Every handler takes the store and returns the new store, the notifications
    emitted with \<open>io.to(...).emit\<close> in order, and the value given to the
    acknowledgement callback.
  \<^item> The values \<open>socket.id\<close>, \<open>socket.handshake.address\<close>, each
    reading of \<open>now()\<close> and the result of \<open>uid\<close> are inputs of the handler.
\<close>

subsection \<open>JavaScript values of event payloads\<close>

datatype jsval =
    JUndefined
  | JNull
  | JBool bool
  | JNum real
  | JStr string
  | JArr "jsval list"
  | JObj "(string \<times> jsval) list"

text \<open>Property read \<open>v.k\<close> (and \<open>v?.k\<close>, which differs only on
  \<open>undefined\<close> and \<open>null\<close>, where the handlers never use the plain form):
  none of the property names the handlers read exists on a primitive or an array.\<close>

fun get_prop :: "jsval \<Rightarrow> string \<Rightarrow> jsval" where
  "get_prop (JObj kvs) k = (case map_of kvs k of Some v \<Rightarrow> v | None \<Rightarrow> JUndefined)"
| "get_prop _ k = JUndefined"

text \<open>\<open>ToBoolean\<close>, as used by \<open>||\<close>, \<open>!!\<close> and \<open>if\<close>.\<close>

fun truthy :: "jsval \<Rightarrow> bool" where
  "truthy JUndefined = False"
| "truthy JNull = False"
| "truthy (JBool b) = b"
| "truthy (JNum x) = (x \<noteq> 0)"
| "truthy (JStr s) = (s \<noteq> [])"
| "truthy (JArr _) = True"
| "truthy (JObj _) = True"

text \<open>\<open>a || b\<close> on values.\<close>

definition js_or :: "jsval \<Rightarrow> jsval \<Rightarrow> jsval" where
  "js_or a b = (if truthy a then a else b)"

text \<open>\<open>Number(v)\<close>: \<open>None\<close> is \<open>NaN\<close>. The conversion of strings, arrays
  and objects is the platform's (\<open>StringToNumber\<close>, \<open>ToPrimitive\<close>) and is a
  parameter.\<close>

fun Number_js :: "(jsval \<Rightarrow> real option) \<Rightarrow> jsval \<Rightarrow> real option" where
  "Number_js conv JUndefined = None"
| "Number_js conv JNull = Some 0"
| "Number_js conv (JBool b) = Some (if b then 1 else 0)"
| "Number_js conv (JNum x) = Some x"
| "Number_js conv v = conv v"

text \<open>\<open>String(v)\<close>; the conversion of numbers, arrays and objects is the
  platform's and is a parameter.\<close>

fun String_js :: "(jsval \<Rightarrow> string) \<Rightarrow> jsval \<Rightarrow> string" where
  "String_js conv (JStr s) = s"
| "String_js conv JUndefined = ''undefined''"
| "String_js conv JNull = ''null''"
| "String_js conv (JBool b) = (if b then ''true'' else ''false'')"
| "String_js conv v = conv v"

text \<open>\<open>s.toLowerCase()\<close> and \<open>s.trim()\<close> on ASCII strings.\<close>

definition lower_char :: "char \<Rightarrow> char" where
  "lower_char ch =
     (if 65 \<le> (of_char ch :: nat) \<and> (of_char ch :: nat) \<le> 90
      then char_of ((of_char ch :: nat) + 32) else ch)"

definition toLowerCase :: "string \<Rightarrow> string" where
  "toLowerCase s = map lower_char s"

definition is_space :: "char \<Rightarrow> bool" where
  "is_space ch = ((of_char ch :: nat) \<in> {9, 10, 11, 12, 13, 32})"

definition trim :: "string \<Rightarrow> string" where
  "trim s = rev (dropWhile is_space (rev (dropWhile is_space s)))"

subsection \<open>Utilities\<close>

definition toRad :: "real \<Rightarrow> real" where
  "toRad d = (d * pi) / 180"

text \<open>\<open>Math.atan2(y, x)\<close> on the reals.\<close>

definition atan2 :: "real \<Rightarrow> real \<Rightarrow> real" where
  "atan2 y x =
     (if 0 < x then arctan (y / x)
      else if x < 0 then (if 0 \<le> y then arctan (y / x) + pi else arctan (y / x) - pi)
      else if 0 < y then pi / 2
      else if y < 0 then - (pi / 2)
      else 0)"

definition haversineKm :: "real \<Rightarrow> real \<Rightarrow> real \<Rightarrow> real \<Rightarrow> real" where
  "haversineKm lat1 lon1 lat2 lon2 =
     (let R = 6371;
          dLat = toRad (lat2 - lat1);
          dLon = toRad (lon2 - lon1);
          a = (sin (dLat / 2))\<^sup>2 + cos (toRad lat1) * cos (toRad lat2) * (sin (dLon / 2))\<^sup>2;
          c = 2 * atan2 (sqrt a) (sqrt (1 - a))
      in R * c)"

subsection \<open>In-memory stores\<close>

datatype role = Helper | Seeker

record latlng =
  lat :: real
  lng :: real

record loc = latlng +
  updatedAt :: int

record conn =
  id_c :: string
  role :: role
  name :: string
  skills :: "string set"
  location_c :: "loc option"
  available :: bool
  rating :: real

datatype status = Pending | Dispatched | Accepted | Cancelled | Resolved

record assigned =
  socketId :: string
  name_a :: string

record emergency =
  id_em :: string
  seekerSocketId :: string
  requiredSkill :: string
  location_em :: latlng
  note_em :: string
  createdAt :: int
  status :: status
  assignedHelper :: "assigned option"
  responders :: "string list"

record state =
  connections :: "(string \<times> conn) list"
  emergencies :: "(string \<times> emergency) list"
  lastEmergencyAtByIP :: "(string \<times> int) list"

definition POST_COOLDOWN_MS :: int where
  "POST_COOLDOWN_MS = 5000"

definition SEARCH_RADIUS_KM :: real where
  "SEARCH_RADIUS_KM = 5"

definition MAX_PARALLEL_DISPATCH :: nat where
  "MAX_PARALLEL_DISPATCH = 3"

text \<open>\<open>Set.prototype.add\<close> on an iterated set.\<close>

definition Set_add :: "'a \<Rightarrow> 'a list \<Rightarrow> 'a list" where
  "Set_add x xs = (if x \<in> set xs then xs else xs @ [x])"

subsection \<open>Notifications and acknowledgements\<close>

datatype msg =
    Dispatch string string latlng real string int
      \<comment> \<open>emergencyId, requiredSkill, seekerApprox, distanceKm, note, createdAt\<close>
  | Dispatch_summary string nat  \<comment> \<open>emergencyId, pinged\<close>
  | Emergency_accepted string string string  \<comment> \<open>emergencyId, helper id, helper name\<close>
  | Emergency_taken string
  | Emergency_cancelled string
  | Emergency_resolved string

type_synonym emit = "string \<times> msg"

datatype error =
    Not_connected | Not_seeker | Not_helper | Too_many_requests | Missing_skill
  | Missing_location | Not_found | Closed | Taken | Not_owner | Not_assigned_helper

datatype ack =
    Ack_ok  \<comment> \<open>\<open>{ ok: true }\<close>\<close>
  | Ack_ok_id string  \<comment> \<open>\<open>{ ok: true, id }\<close> and \<open>{ ok: true, emergencyId }\<close>\<close>
  | Ack_fail  \<comment> \<open>\<open>{ ok: false }\<close>\<close>
  | Ack_error error  \<comment> \<open>\<open>{ ok: false, error }\<close>\<close>

subsection \<open>Matching\<close>

record cand =
  sid_k :: string
  c_k :: conn
  d_k :: real

text \<open>The loop of \<open>rankHelpers\<close> over the connections, in iteration order.\<close>

fun candidates :: "string \<Rightarrow> real \<Rightarrow> real \<Rightarrow> (string \<times> conn) list \<Rightarrow> cand list" where
  "candidates rs la lo [] = []"
| "candidates rs la lo ((sid, c) # rest) =
     (if role c \<noteq> Helper then candidates rs la lo rest
      else if \<not> available c then candidates rs la lo rest
      else case location_c c of
        None \<Rightarrow> candidates rs la lo rest
      | Some l \<Rightarrow>
          if rs \<notin> skills c then candidates rs la lo rest
          else let d = haversineKm la lo (lat l) (lng l)
               in if d \<le> SEARCH_RADIUS_KM
                  then \<lparr>sid_k = sid, c_k = c, d_k = d\<rparr> # candidates rs la lo rest
                  else candidates rs la lo rest)"

text \<open>The comparator given to \<open>candidates.sort\<close>.\<close>

definition cmp :: "cand \<Rightarrow> cand \<Rightarrow> real" where
  "cmp a b =
     (if d_k a \<noteq> d_k b then d_k a - d_k b
      else if rating (c_k a) \<noteq> rating (c_k b) then rating (c_k b) - rating (c_k a)
      else let au = (case location_c (c_k a) of Some l \<Rightarrow> updatedAt l | None \<Rightarrow> 0);
               bu = (case location_c (c_k b) of Some l \<Rightarrow> updatedAt l | None \<Rightarrow> 0)
           in real_of_int (bu - au))"

text \<open>\<open>Array.prototype.sort\<close> with a comparator: a stable sort (ECMAScript 2019),
  here by insertion from the right end, which keeps elements that compare equal in
  their original order.\<close>

fun insert_by :: "('a \<Rightarrow> 'a \<Rightarrow> real) \<Rightarrow> 'a \<Rightarrow> 'a list \<Rightarrow> 'a list" where
  "insert_by f x [] = [x]"
| "insert_by f x (y # ys) = (if f x y \<le> 0 then x # y # ys else y # insert_by f x ys)"

fun sort_by :: "('a \<Rightarrow> 'a \<Rightarrow> real) \<Rightarrow> 'a list \<Rightarrow> 'a list" where
  "sort_by f [] = []"
| "sort_by f (x # xs) = insert_by f x (sort_by f xs)"

definition rankHelpers :: "(string \<times> conn) list \<Rightarrow> string \<Rightarrow> real \<Rightarrow> real \<Rightarrow> cand list" where
  "rankHelpers conns rs la lo = take 25 (sort_by cmp (candidates rs la lo conns))"

text \<open>\<open>Number(d.toFixed(2))\<close>: the nearest multiple of \<open>1/100\<close>, the
  larger one in a tie, computed on the absolute value.\<close>

definition toFixed2 :: "real \<Rightarrow> real" where
  "toFixed2 d =
     (if d < 0 then - (real_of_int \<lfloor>- d * 100 + 1 / 2\<rfloor> / 100)
      else real_of_int \<lfloor>d * 100 + 1 / 2\<rfloor> / 100)"

text \<open>The loop of \<open>dispatchEmergency\<close> over the targets: each target is added to
  the responders and sent a \<open>dispatch\<close> notification.\<close>

fun dispatch_targets :: "emergency \<Rightarrow> cand list \<Rightarrow> emergency \<times> emit list" where
  "dispatch_targets em [] = (em, [])"
| "dispatch_targets em (k # ks) =
     (let em1 = em\<lparr>responders := Set_add (sid_k k) (responders em)\<rparr>;
          e = (sid_k k,
               Dispatch (id_em em1) (requiredSkill em1)
                 \<lparr>lat = lat (location_em em1), lng = lng (location_em em1)\<rparr>
                 (toFixed2 (d_k k))
                 (if note_em em1 \<noteq> [] then note_em em1 else [])
                 (createdAt em1));
          (em2, out) = dispatch_targets em1 ks
      in (em2, e # out))"

definition dispatchEmergency :: "(string \<times> conn) list \<Rightarrow> emergency \<Rightarrow> emergency \<times> emit list" where
  "dispatchEmergency conns em =
     (let ranked = rankHelpers conns (requiredSkill em) (lat (location_em em)) (lng (location_em em));
          targets = take (max 1 MAX_PARALLEL_DISPATCH) ranked;
          (em1, out) = dispatch_targets em targets;
          em2 = (if length targets > 0 then em1\<lparr>status := Dispatched\<rparr> else em1)
      in (em2, out @ [(seekerSocketId em2, Dispatch_summary (id_em em2) (length targets))]))"

subsection \<open>Socket handlers\<close>

datatype exn = TypeError

text \<open>\<open>skills.map((s) => s.toLowerCase())\<close>: an element that is not a string
  has no method \<open>toLowerCase\<close>, and the call throws.\<close>

fun lower_all :: "jsval list \<Rightarrow> exn + string list" where
  "lower_all [] = Inr []"
| "lower_all (JStr s # vs) =
     (case lower_all vs of Inl e \<Rightarrow> Inl e | Inr ss \<Rightarrow> Inr (toLowerCase s # ss))"
| "lower_all (_ # vs) = Inl TypeError"

definition hello ::
  "(jsval \<Rightarrow> real option) \<Rightarrow> string \<Rightarrow> jsval \<Rightarrow> state \<Rightarrow> exn + (state \<times> ack)" where
  "hello conv sock payload s =
     (let p = js_or payload (JObj []);
          role_v = get_prop p ''role'';
          name_v = get_prop p ''name'';
          skills_v = (if get_prop p ''skills'' = JUndefined then JArr [] else get_prop p ''skills'');
          rating_v = (if get_prop p ''rating'' = JUndefined then JNum 4.5 else get_prop p ''rating'')
      in (case (case skills_v of JArr vs \<Rightarrow> lower_all vs | _ \<Rightarrow> Inr []) of
           Inl e \<Rightarrow> Inl e
         | Inr ss \<Rightarrow>
             let entry = \<lparr>
                   id_c = sock,
                   role = (if role_v = JStr ''helper'' then Helper else Seeker),
                   name = (case name_v of
                             JStr n \<Rightarrow> if trim n \<noteq> [] then trim n else ''Guest''
                           | _ \<Rightarrow> ''Guest''),
                   skills = set ss,
                   location_c = None,
                   available = True,
                   rating = (case Number_js conv rating_v of
                               None \<Rightarrow> 4.5
                             | Some x \<Rightarrow> if x \<noteq> 0 then x else 4.5) \<rparr>
             in Inr (s\<lparr>connections := AList.update sock entry (connections s)\<rparr>, Ack_ok_id sock)))"

definition status_availability :: "string \<Rightarrow> jsval \<Rightarrow> state \<Rightarrow> state" where
  "status_availability sock data s =
     (case map_of (connections s) sock of
        None \<Rightarrow> s
      | Some c \<Rightarrow>
          s\<lparr>connections :=
              AList.update sock (c\<lparr>available := truthy (get_prop data ''available'')\<rparr>)
                (connections s)\<rparr>)"

definition location_update :: "string \<Rightarrow> int \<Rightarrow> jsval \<Rightarrow> state \<Rightarrow> state" where
  "location_update sock t l s =
     (case map_of (connections s) sock of
        None \<Rightarrow> s
      | Some c \<Rightarrow>
          let l' = js_or l (JObj [])
          in (case (get_prop l' ''lat'', get_prop l' ''lng'') of
                (JNum la, JNum lo) \<Rightarrow>
                  s\<lparr>connections :=
                      AList.update sock
                        (c\<lparr>location_c := Some \<lparr>lat = la, lng = lo, updatedAt = t\<rparr>\<rparr>)
                        (connections s)\<rparr>
              | _ \<Rightarrow> s))"

text \<open>\<open>emergency:post\<close>. \<open>address\<close> is \<open>socket.handshake.address\<close>;
  \<open>t1\<close>, \<open>t2\<close> and \<open>t3\<close> are the three readings of \<open>now()\<close> (the
  cooldown test, the cooldown record, \<open>createdAt\<close>); \<open>new_id\<close> is the result of
  \<open>uid('em_')\<close>.\<close>

definition emergency_post ::
  "(jsval \<Rightarrow> string) \<Rightarrow> string \<Rightarrow> string option \<Rightarrow> int \<Rightarrow> int \<Rightarrow> int \<Rightarrow> string \<Rightarrow> jsval
     \<Rightarrow> state \<Rightarrow> state \<times> emit list \<times> ack" where
  "emergency_post conv sock address t1 t2 t3 new_id payload s =
     (case map_of (connections s) sock of
        None \<Rightarrow> (s, [], Ack_error Not_connected)
      | Some c \<Rightarrow>
          if role c \<noteq> Seeker then (s, [], Ack_error Not_seeker)
          else
            let ip = (case address of
                        Some a \<Rightarrow> if a \<noteq> [] then a else ''unknown''
                      | None \<Rightarrow> ''unknown'');
                lastAt = (case map_of (lastEmergencyAtByIP s) ip of
                            Some t \<Rightarrow> if t \<noteq> 0 then t else 0
                          | None \<Rightarrow> 0)
            in if t1 - lastAt < POST_COOLDOWN_MS then (s, [], Ack_error Too_many_requests)
               else
                 let s1 = s\<lparr>lastEmergencyAtByIP := AList.update ip t2 (lastEmergencyAtByIP s)\<rparr>;
                     rs = trim (toLowerCase
                            (String_js conv (js_or (get_prop payload ''requiredSkill'') (JStr []))));
                     nt = String_js conv (js_or (get_prop payload ''note'') (JStr []));
                     l = js_or (get_prop payload ''location'') (JObj [])
                 in if rs = [] then (s1, [], Ack_error Missing_skill)
                    else (case (get_prop l ''lat'', get_prop l ''lng'') of
                      (JNum la, JNum lo) \<Rightarrow>
                        let em = \<lparr>
                              id_em = new_id,
                              seekerSocketId = sock,
                              requiredSkill = rs,
                              location_em = \<lparr>lat = la, lng = lo\<rparr>,
                              note_em = nt,
                              createdAt = t3,
                              status = Pending,
                              assignedHelper = None,
                              responders = [] \<rparr>;
                            s2 = s1\<lparr>emergencies := AList.update (id_em em) em (emergencies s1)\<rparr>;
                            (em', out) = dispatchEmergency (connections s2) em;
                            s3 = s2\<lparr>emergencies := AList.update (id_em em) em' (emergencies s2)\<rparr>
                        in (s3, out, Ack_ok_id (id_em em'))
                    | _ \<Rightarrow> (s1, [], Ack_error Missing_location)))"

text \<open>\<open>emergency:accept\<close>, \<open>emergency:cancel\<close> and \<open>emergency:resolved\<close> for
  a payload \<open>{ emergencyId }\<close> whose \<open>emergencyId\<close> is a string.\<close>

definition emergency_accept :: "string \<Rightarrow> string \<Rightarrow> state \<Rightarrow> state \<times> emit list \<times> ack" where
  "emergency_accept sock emergencyId s =
     (case map_of (connections s) sock of
        None \<Rightarrow> (s, [], Ack_error Not_helper)
      | Some c \<Rightarrow>
          if role c \<noteq> Helper then (s, [], Ack_error Not_helper)
          else (case map_of (emergencies s) emergencyId of
            None \<Rightarrow> (s, [], Ack_error Not_found)
          | Some em \<Rightarrow>
              if status em = Cancelled \<or> status em = Resolved then (s, [], Ack_error Closed)
              else if assignedHelper em \<noteq> None then (s, [], Ack_error Taken)
              else
                let em' = em\<lparr>assignedHelper := Some \<lparr>socketId = sock, name_a = name c\<rparr>,
                              status := Accepted\<rparr>;
                    c' = c\<lparr>available := False\<rparr>
                in (s\<lparr>connections := AList.update sock c' (connections s),
                       emergencies := AList.update emergencyId em' (emergencies s)\<rparr>,
                    (seekerSocketId em', Emergency_accepted (id_em em') sock (name c'))
                      # map (\<lambda>sid. (sid, Emergency_taken (id_em em')))
                          (filter (\<lambda>sid. sid \<noteq> sock) (responders em')),
                    Ack_ok)))"

definition emergency_cancel :: "string \<Rightarrow> string \<Rightarrow> state \<Rightarrow> state \<times> emit list \<times> ack" where
  "emergency_cancel sock emergencyId s =
     (case (map_of (connections s) sock, map_of (emergencies s) emergencyId) of
        (Some c, Some em) \<Rightarrow>
          if seekerSocketId em \<noteq> sock then (s, [], Ack_error Not_owner)
          else
            let em' = em\<lparr>status := Cancelled\<rparr>
            in (s\<lparr>emergencies := AList.update emergencyId em' (emergencies s)\<rparr>,
                map (\<lambda>sid. (sid, Emergency_cancelled emergencyId)) (responders em')
                  @ (case assignedHelper em' of
                       Some a \<Rightarrow> [(socketId a, Emergency_cancelled emergencyId)]
                     | None \<Rightarrow> []),
                Ack_ok)
      | _ \<Rightarrow> (s, [], Ack_fail))"

definition emergency_resolved :: "string \<Rightarrow> string \<Rightarrow> state \<Rightarrow> state \<times> emit list \<times> ack" where
  "emergency_resolved sock emergencyId s =
     (case (map_of (connections s) sock, map_of (emergencies s) emergencyId) of
        (Some c, Some em) \<Rightarrow>
          if (case assignedHelper em of None \<Rightarrow> True | Some a \<Rightarrow> socketId a \<noteq> sock)
          then (s, [], Ack_error Not_assigned_helper)
          else
            let em' = em\<lparr>status := Resolved\<rparr>;
                c' = c\<lparr>available := True\<rparr>
            in (s\<lparr>connections := AList.update sock c' (connections s),
                   emergencies := AList.update emergencyId em' (emergencies s)\<rparr>,
                [(seekerSocketId em', Emergency_resolved emergencyId)],
                Ack_ok)
      | _ \<Rightarrow> (s, [], Ack_fail))"

text \<open>The loop of the \<open>disconnect\<close> handler over \<open>emergencies.values()\<close>.\<close>

fun reopen :: "(string \<times> conn) list \<Rightarrow> string \<Rightarrow> (string \<times> emergency) list
    \<Rightarrow> (string \<times> emergency) list \<times> emit list" where
  "reopen conns sock [] = ([], [])"
| "reopen conns sock ((k, em) # rest) =
     (let (em', out) =
            (if (case assignedHelper em of Some a \<Rightarrow> socketId a = sock | None \<Rightarrow> False)
                \<and> status em = Accepted
             then dispatchEmergency conns (em\<lparr>assignedHelper := None, status := Pending\<rparr>)
             else (em, []));
          (rest', out') = reopen conns sock rest
      in ((k, em') # rest', out @ out'))"

definition disconnect :: "string \<Rightarrow> state \<Rightarrow> state \<times> emit list" where
  "disconnect sock s =
     (case map_of (connections s) sock of
        None \<Rightarrow> (s, [])
      | Some c \<Rightarrow>
          let (ems, out) = reopen (connections s) sock (emergencies s)
          in (s\<lparr>emergencies := ems, connections := AList.delete sock (connections s)\<rparr>, out))"

section \<open>The properties, in the words of the specification\<close>

subsection \<open>Ranker\<close>

text \<open>A party is eligible for a request when it is a helper, is available, has a
  location, has the required capability and is within the search radius of the origin.\<close>

definition eligible :: "string \<Rightarrow> real \<Rightarrow> real \<Rightarrow> conn \<Rightarrow> bool" where
  "eligible rs la lo c \<longleftrightarrow>
     role c = Helper \<and> available c \<and>
     (case location_c c of
        None \<Rightarrow> False
      | Some l \<Rightarrow> rs \<in> skills c \<and> haversineKm la lo (lat l) (lng l) \<le> SEARCH_RADIUS_KM)"

definition distance_of :: "real \<Rightarrow> real \<Rightarrow> conn \<Rightarrow> real" where
  "distance_of la lo c =
     (case location_c c of None \<Rightarrow> 0 | Some l \<Rightarrow> haversineKm la lo (lat l) (lng l))"

definition as_cand :: "real \<Rightarrow> real \<Rightarrow> string \<times> conn \<Rightarrow> cand" where
  "as_cand la lo p = \<lparr>sid_k = fst p, c_k = snd p, d_k = distance_of la lo (snd p)\<rparr>"

definition freshness :: "cand \<Rightarrow> int" where
  "freshness k = (case location_c (c_k k) of Some l \<Rightarrow> updatedAt l | None \<Rightarrow> 0)"

text \<open>The order of the ranking: nearer first, then higher rating, then the more recent
  location update.\<close>

definition ranks_before :: "cand \<Rightarrow> cand \<Rightarrow> bool" where
  "ranks_before a b \<longleftrightarrow>
     d_k a < d_k b \<or>
     (d_k a = d_k b \<and>
       (rating (c_k b) < rating (c_k a) \<or>
        (rating (c_k a) = rating (c_k b) \<and> freshness b \<le> freshness a)))"

subsection \<open>Dispatch\<close>

text \<open>The notification a candidate receives, and the candidates a dispatch reaches.\<close>

definition ping :: "emergency \<Rightarrow> cand \<Rightarrow> emit" where
  "ping em k =
     (sid_k k,
      Dispatch (id_em em) (requiredSkill em) (location_em em) (toFixed2 (d_k k)) (note_em em)
        (createdAt em))"

definition targets_of :: "(string \<times> conn) list \<Rightarrow> emergency \<Rightarrow> cand list" where
  "targets_of conns em =
     take (max 1 MAX_PARALLEL_DISPATCH)
       (rankHelpers conns (requiredSkill em) (lat (location_em em)) (lng (location_em em)))"

subsection \<open>Acceptance\<close>

definition is_helper :: "state \<Rightarrow> string \<Rightarrow> bool" where
  "is_helper s sock =
     (case map_of (connections s) sock of Some c \<Rightarrow> role c = Helper | None \<Rightarrow> False)"

definition accept_guard :: "string \<Rightarrow> string \<Rightarrow> state \<Rightarrow> bool" where
  "accept_guard sock eid s \<longleftrightarrow>
     is_helper s sock \<and>
     (case map_of (emergencies s) eid of
        Some em \<Rightarrow> status em \<noteq> Cancelled \<and> status em \<noteq> Resolved \<and> assignedHelper em = None
      | None \<Rightarrow> False)"

text \<open>A sequence of accept events for one request, processed one after the other; the
  result is the final store and the acknowledgements in order.\<close>

fun accept_all :: "string \<Rightarrow> string list \<Rightarrow> state \<Rightarrow> state \<times> ack list" where
  "accept_all eid [] s = (s, [])"
| "accept_all eid (sock # socks) s =
     (let (s1, out, a) = emergency_accept sock eid s;
          (s2, as) = accept_all eid socks s1
      in (s2, a # as))"

subsection \<open>Loss of the assigned helper\<close>

definition held_by :: "string \<Rightarrow> emergency \<Rightarrow> bool" where
  "held_by sock em \<longleftrightarrow>
     (case assignedHelper em of Some a \<Rightarrow> socketId a = sock | None \<Rightarrow> False)
     \<and> status em = Accepted"

definition redispatch :: "(string \<times> conn) list \<Rightarrow> emergency \<Rightarrow> emergency \<times> emit list" where
  "redispatch conns em = dispatchEmergency conns (em\<lparr>assignedHelper := None, status := Pending\<rparr>)"

text \<open>The notifications that are a dispatch to a candidate.\<close>

fun is_dispatch :: "msg \<Rightarrow> bool" where
  "is_dispatch (Dispatch i rs l d n t) = True"
| "is_dispatch _ = False"

subsection \<open>Posting\<close>

definition is_seeker :: "state \<Rightarrow> string \<Rightarrow> bool" where
  "is_seeker s sock =
     (case map_of (connections s) sock of Some c \<Rightarrow> role c = Seeker | None \<Rightarrow> False)"

definition ip_of :: "string option \<Rightarrow> string" where
  "ip_of address =
     (case address of Some a \<Rightarrow> if a \<noteq> [] then a else ''unknown'' | None \<Rightarrow> ''unknown'')"

text \<open>The address is in its cooldown window at time \<open>t\<close> when the time recorded for it
  (\<open>0\<close> when there is none) is less than \<open>POST_COOLDOWN_MS\<close> before \<open>t\<close>.\<close>

definition cooling :: "state \<Rightarrow> string option \<Rightarrow> int \<Rightarrow> bool" where
  "cooling s address t \<longleftrightarrow>
     t - (case map_of (lastEmergencyAtByIP s) (ip_of address) of Some u \<Rightarrow> u | None \<Rightarrow> 0)
       < POST_COOLDOWN_MS"

definition normalized_skill :: "(jsval \<Rightarrow> string) \<Rightarrow> jsval \<Rightarrow> string" where
  "normalized_skill conv payload =
     trim (toLowerCase (String_js conv (js_or (get_prop payload ''requiredSkill'') (JStr []))))"

definition coordinates :: "jsval \<Rightarrow> latlng option" where
  "coordinates payload =
     (case (get_prop (js_or (get_prop payload ''location'') (JObj [])) ''lat'',
            get_prop (js_or (get_prop payload ''location'') (JObj [])) ''lng'') of
        (JNum la, JNum lo) \<Rightarrow> Some \<lparr>lat = la, lng = lo\<rparr>
      | _ \<Rightarrow> None)"


text \<open>The request a post creates, before the dispatch step runs on it.\<close>

definition new_request ::
  "(jsval \<Rightarrow> string) \<Rightarrow> string \<Rightarrow> int \<Rightarrow> string \<Rightarrow> jsval \<Rightarrow> emergency" where
  "new_request conv sock t new_id payload =
     \<lparr>id_em = new_id,
      seekerSocketId = sock,
      requiredSkill = normalized_skill conv payload,
      location_em = (case coordinates payload of Some l \<Rightarrow> l | None \<Rightarrow> \<lparr>lat = 0, lng = 0\<rparr>),
      note_em = String_js conv (js_or (get_prop payload ''note'') (JStr [])),
      createdAt = t,
      status = Pending,
      assignedHelper = None,
      responders = []\<rparr>"

section \<open>A concrete run\<close>

text \<open>Two helpers with the skill at the seeker's position, one with the skill on the
  other side of the globe, one nearby without the skill, and the seeker.\<close>

definition conn_A :: conn where
  "conn_A = \<lparr>id_c = ''A'', role = Helper, name = ''Asha'', skills = {''bike''},
     location_c = Some \<lparr>lat = 0, lng = 0, updatedAt = 10\<rparr>, available = True, rating = 4.5\<rparr>"

definition conn_B :: conn where
  "conn_B = \<lparr>id_c = ''B'', role = Helper, name = ''Bala'', skills = {''bike'', ''tyre''},
     location_c = Some \<lparr>lat = 0, lng = 0, updatedAt = 20\<rparr>, available = True, rating = 5\<rparr>"

definition conn_C :: conn where
  "conn_C = \<lparr>id_c = ''C'', role = Helper, name = ''Chitra'', skills = {''bike''},
     location_c = Some \<lparr>lat = 0, lng = 180, updatedAt = 30\<rparr>, available = True, rating = 5\<rparr>"

definition conn_D :: conn where
  "conn_D = \<lparr>id_c = ''D'', role = Helper, name = ''Dev'', skills = {''tyre''},
     location_c = Some \<lparr>lat = 0, lng = 0, updatedAt = 40\<rparr>, available = True, rating = 5\<rparr>"

definition conn_S :: conn where
  "conn_S = \<lparr>id_c = ''S'', role = Seeker, name = ''Sita'', skills = {},
     location_c = None, available = True, rating = 4.5\<rparr>"

definition registry0 :: "(string \<times> conn) list" where
  "registry0 = [(''A'', conn_A), (''B'', conn_B), (''C'', conn_C), (''D'', conn_D), (''S'', conn_S)]"

definition empty_state :: state where
  "empty_state = \<lparr>connections = [], emergencies = [], lastEmergencyAtByIP = []\<rparr>"

definition registered :: state where
  "registered = \<lparr>connections = registry0, emergencies = [], lastEmergencyAtByIP = []\<rparr>"

text \<open>Sample conversions of the platform for strings, arrays and objects.\<close>

definition num_conv0 :: "jsval \<Rightarrow> real option" where
  "num_conv0 v = None"

definition str_conv0 :: "jsval \<Rightarrow> string" where
  "str_conv0 v = ''[object Object]''"

definition post_1 :: jsval where
  "post_1 = JObj [(''requiredSkill'', JStr '' Bike ''), (''note'', JStr ''flat tyre''),
     (''location'', JObj [(''lat'', JNum 0), (''lng'', JNum 0)])]"

definition em_1 :: emergency where
  "em_1 = \<lparr>id_em = ''em_1'', seekerSocketId = ''S'', requiredSkill = ''bike'',
     location_em = \<lparr>lat = 0, lng = 0\<rparr>, note_em = ''flat tyre'', createdAt = 100002,
     status = Dispatched, assignedHelper = None, responders = [''B'', ''A'']\<rparr>"

text \<open>The store after the seeker's post \<open>post_1\<close> at time \<open>100000\<close>.\<close>

definition state0 :: state where
  "state0 = \<lparr>connections = registry0, emergencies = [(''em_1'', em_1)],
     lastEmergencyAtByIP = [(''10.0.0.1'', 100001)]\<rparr>"

text \<open>The store after helper \<open>A\<close> has accepted \<open>em_1\<close>.\<close>

definition em_1_accepted :: emergency where
  "em_1_accepted =
     em_1\<lparr>assignedHelper := Some \<lparr>socketId = ''A'', name_a = ''Asha''\<rparr>, status := Accepted\<rparr>"

definition state1 :: state where
  "state1 = \<lparr>connections =
       [(''A'', conn_A\<lparr>available := False\<rparr>), (''B'', conn_B), (''C'', conn_C), (''D'', conn_D),
        (''S'', conn_S)],
     emergencies = [(''em_1'', em_1_accepted)],
     lastEmergencyAtByIP = [(''10.0.0.1'', 100001)]\<rparr>"

text \<open>The payload \<open>{ available: true }\<close>, and the store after helper \<open>A\<close>, still
  assigned, has sent it.\<close>

definition available_true :: jsval where
  "available_true = JObj [(''available'', JBool True)]"

definition state2 :: state where
  "state2 = \<lparr>connections = registry0, emergencies = [(''em_1'', em_1_accepted)],
     lastEmergencyAtByIP = [(''10.0.0.1'', 100001)]\<rparr>"

text \<open>Two malformed posts: one without a required skill, one without a location.\<close>

definition post_no_skill :: jsval where
  "post_no_skill = JObj [(''requiredSkill'', JStr ''  ''), (''note'', JStr ''help''),
     (''location'', JObj [(''lat'', JNum 0), (''lng'', JNum 0)])]"


text \<open>The store after helper \<open>A\<close> has resolved \<open>em_1\<close>, and the store after the
  seeker has cancelled \<open>em_1\<close> while \<open>A\<close> was assigned.\<close>

definition state_resolved :: state where
  "state_resolved = \<lparr>connections = registry0,
     emergencies = [(''em_1'', em_1_accepted\<lparr>status := Resolved\<rparr>)],
     lastEmergencyAtByIP = [(''10.0.0.1'', 100001)]\<rparr>"

definition state_cancelled :: state where
  "state_cancelled = state1\<lparr>emergencies := [(''em_1'', em_1_accepted\<lparr>status := Cancelled\<rparr>)]\<rparr>"

text \<open>A handshake whose skill tag has a leading blank, the party it registers, and a
  location update at the seeker's position.\<close>

definition hello_untrimmed :: jsval where
  "hello_untrimmed = JObj [(''role'', JStr ''helper''), (''name'', JStr ''Hari''),
     (''skills'', JArr [JStr '' Bike''])]"

definition conn_H :: conn where
  "conn_H = \<lparr>id_c = ''H'', role = Helper, name = ''Hari'', skills = {'' bike''},
     location_c = None, available = True, rating = 4.5\<rparr>"

definition here :: jsval where
  "here = JObj [(''lat'', JNum 0), (''lng'', JNum 0)]"

section \<open>The stores the handlers can produce\<close>

text \<open>The stores that arise from the empty store by any sequence of events, with any
  socket ids, payloads, clock readings and request ids.\<close>

inductive reachable :: "state \<Rightarrow> bool" where
  start: "reachable empty_state"
| on_hello: "reachable s \<Longrightarrow> hello conv sock payload s = Inr (s', a) \<Longrightarrow> reachable s'"
| on_availability: "reachable s \<Longrightarrow> reachable (status_availability sock v s)"
| on_location: "reachable s \<Longrightarrow> reachable (location_update sock t l s)"
| on_post: "reachable s \<Longrightarrow>
    reachable (fst (emergency_post conv sock address t1 t2 t3 new_id payload s))"
| on_accept: "reachable s \<Longrightarrow> reachable (fst (emergency_accept sock eid s))"
| on_cancel: "reachable s \<Longrightarrow> reachable (fst (emergency_cancel sock eid s))"
| on_resolved: "reachable s \<Longrightarrow> reachable (fst (emergency_resolved sock eid s))"
| on_disconnect: "reachable s \<Longrightarrow> reachable (fst (disconnect sock s))"

text \<open>Every request that is in status \<open>accepted\<close> with an assigned helper has that
  helper in the registry.\<close>

definition holders_registered :: "state \<Rightarrow> bool" where
  "holders_registered s \<longleftrightarrow>
     (\<forall>p\<in>set (emergencies s). \<forall>sock. held_by sock (snd p) \<longrightarrow>
        map_of (connections s) sock \<noteq> None)"

text \<open>The handshakes and location updates that build \<open>registry0\<close>.\<close>

definition hello_A :: jsval where
  "hello_A = JObj [(''role'', JStr ''helper''), (''name'', JStr '' Asha ''),
     (''skills'', JArr [JStr ''Bike'', JStr ''bike''])]"

definition hello_B :: jsval where
  "hello_B = JObj [(''role'', JStr ''helper''), (''name'', JStr ''Bala''),
     (''skills'', JArr [JStr ''bike'', JStr ''Tyre'']), (''rating'', JNum 5)]"

definition hello_C :: jsval where
  "hello_C = JObj [(''role'', JStr ''helper''), (''name'', JStr ''Chitra''),
     (''skills'', JArr [JStr ''bike'']), (''rating'', JNum 5)]"

definition hello_D :: jsval where
  "hello_D = JObj [(''role'', JStr ''helper''), (''name'', JStr ''Dev''),
     (''skills'', JArr [JStr ''tyre'']), (''rating'', JNum 5)]"

definition hello_S :: jsval where
  "hello_S = JObj [(''name'', JStr ''Sita''), (''rating'', JStr ''high'')]"

definition far_away :: jsval where
  "far_away = JObj [(''lat'', JNum 0), (''lng'', JNum 180)]"

definition joined :: "(string \<times> conn) list \<Rightarrow> state" where
  "joined conns = \<lparr>connections = conns, emergencies = [], lastEmergencyAtByIP = []\<rparr>"

section \<open>Proofs\<close>

subsection \<open>The ranker\<close>

lemma candidates_Cons:
  "candidates rs la lo ((sid, c) # rest) =
     (if eligible rs la lo c then as_cand la lo (sid, c) # candidates rs la lo rest
      else candidates rs la lo rest)"
  by (simp add: eligible_def as_cand_def distance_of_def Let_def split: option.splits)

lemma candidates_filter:
  "candidates rs la lo conns = map (as_cand la lo) (filter (\<lambda>p. eligible rs la lo (snd p)) conns)"
proof (induction conns)
  case Nil
  show ?case by simp
next
  case (Cons p ps)
  obtain sid c where p: "p = (sid, c)" by (cases p)
  show ?case unfolding p candidates_Cons using Cons.IH by simp
qed

lemma cmp_ranks_before: "cmp a b \<le> 0 \<longleftrightarrow> ranks_before a b"
  by (auto simp: cmp_def ranks_before_def freshness_def Let_def)

lemma ranks_before_total: "ranks_before a b \<or> ranks_before b a"
  by (auto simp: ranks_before_def)

lemma ranks_before_trans: "ranks_before a b \<Longrightarrow> ranks_before b c \<Longrightarrow> ranks_before a c"
  unfolding ranks_before_def by (elim disjE conjE) auto

lemma mset_insert_by: "mset (insert_by f x xs) = add_mset x (mset xs)"
  by (induction xs) auto

lemma mset_sort_by: "mset (sort_by f xs) = mset xs"
  by (induction xs) (auto simp: mset_insert_by)

lemma set_insert_by: "set (insert_by f x xs) = insert x (set xs)"
  by (induction xs) auto

lemma sorted_insert_by:
  "sorted_wrt ranks_before xs \<Longrightarrow> sorted_wrt ranks_before (insert_by cmp x xs)"
proof (induction xs)
  case Nil
  then show ?case by simp
next
  case (Cons y ys)
  show ?case
  proof (cases "cmp x y \<le> 0")
    case True
    then have xy: "ranks_before x y" by (simp add: cmp_ranks_before)
    have "\<forall>z\<in>set ys. ranks_before x z"
      using Cons.prems xy ranks_before_trans by auto
    with True xy Cons.prems show ?thesis by simp
  next
    case False
    then have "ranks_before y x"
      using ranks_before_total [of x y] by (simp add: cmp_ranks_before)
    with False Cons show ?thesis by (auto simp: set_insert_by)
  qed
qed

lemma sorted_sort_by: "sorted_wrt ranks_before (sort_by cmp xs)"
  by (induction xs) (auto simp: sorted_insert_by)

lemma rankHelpers_take:
  "rankHelpers conns rs la lo =
     take 25 (sort_by cmp (map (as_cand la lo) (filter (\<lambda>p. eligible rs la lo (snd p)) conns)))"
  by (simp add: rankHelpers_def candidates_filter)

lemma set_sort_by: "set (sort_by f xs) = set xs"
  by (metis mset_sort_by set_mset_mset)

lemma length_sort_by: "length (sort_by f xs) = length xs"
  by (metis mset_sort_by size_mset)

lemma rankHelpers_member:
  assumes "k \<in> set (rankHelpers conns rs la lo)"
  shows "(sid_k k, c_k k) \<in> set conns \<and> eligible rs la lo (c_k k)
         \<and> d_k k = distance_of la lo (c_k k)"
proof -
  let ?el = "filter (\<lambda>p. eligible rs la lo (snd p)) conns"
  from assms have "k \<in> set (sort_by cmp (map (as_cand la lo) ?el))"
    unfolding rankHelpers_take by (rule in_set_takeD)
  then have "k \<in> as_cand la lo ` set ?el" by (simp add: set_sort_by)
  then obtain p where "p \<in> set conns" "eligible rs la lo (snd p)" "k = as_cand la lo p"
    by auto
  then show ?thesis by (simp add: as_cand_def)
qed

lemma haversineKm_same: "haversineKm la lo la lo = 0"
  by (simp add: haversineKm_def toRad_def atan2_def)

lemma radius_nonneg: "0 \<le> SEARCH_RADIUS_KM"
  by (simp add: SEARCH_RADIUS_KM_def)

lemma haversineKm_antipode: "haversineKm 0 0 0 180 = 6371 * pi"
  by (simp add: haversineKm_def toRad_def atan2_def)

lemma haversineKm_antipode_far: "\<not> haversineKm 0 0 0 180 \<le> SEARCH_RADIUS_KM"
proof -
  have "2 \<le> pi" by (rule pi_ge_two)
  then show ?thesis by (simp add: haversineKm_antipode SEARCH_RADIUS_KM_def)
qed

lemma rank_registry0:
  "rankHelpers registry0 ''bike'' 0 0 =
     [\<lparr>sid_k = ''B'', c_k = conn_B, d_k = 0\<rparr>, \<lparr>sid_k = ''A'', c_k = conn_A, d_k = 0\<rparr>]"
  by (simp add: rankHelpers_def registry0_def conn_A_def conn_B_def conn_C_def conn_D_def
      conn_S_def haversineKm_same radius_nonneg haversineKm_antipode_far cmp_def)

subsection \<open>The dispatch step\<close>

lemma latlng_eta: "\<lparr>lat = lat (p::latlng), lng = lng p\<rparr> = p"
  by simp

lemma dispatch_targets_eq:
  "dispatch_targets em ks =
     (em\<lparr>responders := foldl (\<lambda>r k. Set_add (sid_k k) r) (responders em) ks\<rparr>,
      map (ping em) ks)"
proof (induction ks arbitrary: em)
  case Nil
  show ?case by simp
next
  case (Cons k ks)
  show ?case
    by (simp add: Cons.IH Let_def ping_def)
qed

lemma set_foldl_Set_add:
  "set (foldl (\<lambda>r k. Set_add (f k) r) r0 ks) = set r0 \<union> f ` set ks"
  by (induction ks arbitrary: r0) (auto simp: Set_add_def)

lemma distinct_foldl_Set_add:
  "distinct r0 \<Longrightarrow> distinct (foldl (\<lambda>r k. Set_add (f k) r) r0 ks)"
  by (induction ks arbitrary: r0) (auto simp: Set_add_def)

lemma dispatchEmergency_fst:
  "fst (dispatchEmergency conns em) =
     em\<lparr>responders :=
          foldl (\<lambda>r k. Set_add (sid_k k) r) (responders em) (targets_of conns em),
        status := (if targets_of conns em = [] then status em else Dispatched)\<rparr>"
  by (simp add: dispatchEmergency_def Let_def targets_of_def dispatch_targets_eq)

lemma dispatchEmergency_snd:
  "snd (dispatchEmergency conns em) =
     map (ping em) (targets_of conns em)
     @ [(seekerSocketId em, Dispatch_summary (id_em em) (length (targets_of conns em)))]"
  by (simp add: dispatchEmergency_def Let_def targets_of_def dispatch_targets_eq)

subsection \<open>The accept handler\<close>

lemma accept_ok_iff:
  "snd (snd (emergency_accept sock eid s)) = Ack_ok \<longleftrightarrow> accept_guard sock eid s"
  by (auto simp: emergency_accept_def accept_guard_def is_helper_def Let_def split: option.splits)

lemma accept_rejected:
  "\<not> accept_guard sock eid s \<Longrightarrow>
     fst (emergency_accept sock eid s) = s \<and> fst (snd (emergency_accept sock eid s)) = []"
  by (auto simp: emergency_accept_def accept_guard_def is_helper_def Let_def split: option.splits)

lemma accept_commit:
  assumes "map_of (connections s) sock = Some c" "map_of (emergencies s) eid = Some em"
    and "accept_guard sock eid s"
  shows "emergency_accept sock eid s =
     (s\<lparr>connections := AList.update sock (c\<lparr>available := False\<rparr>) (connections s),
        emergencies := AList.update eid
          (em\<lparr>assignedHelper := Some \<lparr>socketId = sock, name_a = name c\<rparr>, status := Accepted\<rparr>)
          (emergencies s)\<rparr>,
      (seekerSocketId em, Emergency_accepted (id_em em) sock (name c))
        # map (\<lambda>sid. (sid, Emergency_taken (id_em em))) (filter (\<lambda>sid. sid \<noteq> sock) (responders em)),
      Ack_ok)"
  using assms
  by (auto simp: emergency_accept_def accept_guard_def is_helper_def Let_def split: option.splits)

lemma accept_when_assigned:
  assumes "map_of (emergencies s) eid = Some em" "status em = Accepted" "assignedHelper em \<noteq> None"
  shows "emergency_accept h eid s =
     (s, [], Ack_error (if is_helper s h then Taken else Not_helper))"
  using assms
  by (auto simp: emergency_accept_def is_helper_def Let_def split: option.splits)

lemma accept_all_when_assigned:
  assumes "map_of (emergencies s) eid = Some em" "status em = Accepted" "assignedHelper em \<noteq> None"
  shows "accept_all eid later s =
     (s, map (\<lambda>h. Ack_error (if is_helper s h then Taken else Not_helper)) later)"
  by (induction later) (simp_all add: accept_when_assigned [OF assms])

lemma is_helper_after_accept:
  "is_helper (fst (emergency_accept sock eid s)) h = is_helper s h"
  by (auto simp: emergency_accept_def is_helper_def Let_def update_conv' split: option.splits)

lemma accept_all_rejected:
  "\<forall>h\<in>set pre. \<not> accept_guard h eid s \<Longrightarrow>
     accept_all eid (pre @ rest) s =
       (fst (accept_all eid rest s),
        map (\<lambda>h. snd (snd (emergency_accept h eid s))) pre @ snd (accept_all eid rest s))"
proof (induction pre)
  case Nil
  show ?case by simp
next
  case (Cons h pre)
  then have "\<not> accept_guard h eid s" by simp
  then have "fst (emergency_accept h eid s) = s" by (simp add: accept_rejected)
  then show ?case using Cons by (simp add: split_beta)
qed

lemma accept_assigns:
  assumes "accept_guard w eid s"
  shows "\<exists>em c. map_of (emergencies s) eid = Some em \<and> map_of (connections s) w = Some c
          \<and> map_of (emergencies (fst (emergency_accept w eid s))) eid
              = Some (em\<lparr>assignedHelper := Some \<lparr>socketId = w, name_a = name c\<rparr>,
                         status := Accepted\<rparr>)
          \<and> map_of (connections (fst (emergency_accept w eid s))) w
              = Some (c\<lparr>available := False\<rparr>)"
proof -
  from assms obtain c em where c: "map_of (connections s) w = Some c"
    and em: "map_of (emergencies s) eid = Some em"
    by (auto simp: accept_guard_def is_helper_def split: option.splits)
  show ?thesis
    using c em by (simp add: accept_commit [OF c em assms] update_conv')
qed

lemma accept_guard_state0_A: "accept_guard ''A'' ''em_1'' state0"
  by (simp add: accept_guard_def is_helper_def state0_def registry0_def conn_A_def em_1_def)

lemma accept_guard_state0_S: "\<not> accept_guard ''S'' ''em_1'' state0"
  by (simp add: accept_guard_def is_helper_def state0_def registry0_def conn_S_def)

lemma is_helper_state0:
  "is_helper state0 ''B''" "\<not> is_helper state0 ''S''"
  by (simp_all add: is_helper_def state0_def registry0_def conn_B_def conn_S_def)

lemma accept_state0_S: "emergency_accept ''S'' ''em_1'' state0 = (state0, [], Ack_error Not_helper)"
  by (simp add: emergency_accept_def state0_def registry0_def conn_S_def)

subsection \<open>The disconnect handler\<close>

lemma targets_of_reopened [simp]:
  "targets_of conns (em\<lparr>assignedHelper := a, status := st\<rparr>) = targets_of conns em"
  by (simp add: targets_of_def)

lemma ping_reopened [simp]:
  "ping (em\<lparr>assignedHelper := a, status := st\<rparr>) = ping em"
  by (rule ext) (simp add: ping_def)

lemma redispatch_fst:
  "fst (redispatch conns em) =
     em\<lparr>assignedHelper := None,
        status := (if targets_of conns em = [] then Pending else Dispatched),
        responders :=
          foldl (\<lambda>r k. Set_add (sid_k k) r) (responders em) (targets_of conns em)\<rparr>"
  by (simp add: redispatch_def dispatchEmergency_fst)

lemma redispatch_snd:
  "snd (redispatch conns em) =
     map (ping em) (targets_of conns em)
     @ [(seekerSocketId em, Dispatch_summary (id_em em) (length (targets_of conns em)))]"
  by (simp add: redispatch_def dispatchEmergency_snd)

lemma reopen_eq:
  "reopen conns sock ems =
     (map (\<lambda>(k, em). (k, if held_by sock em then fst (redispatch conns em) else em)) ems,
      concat (map (\<lambda>(k, em). if held_by sock em then snd (redispatch conns em) else []) ems))"
proof (induction ems)
  case Nil
  show ?case by simp
next
  case (Cons p ems)
  obtain k em where p: "p = (k, em)" by (cases p)
  show ?case
    unfolding p by (simp add: Cons.IH held_by_def redispatch_def split_beta)
qed

subsection \<open>The concrete run: accept, availability, disconnect\<close>

lemma toFixed2_0: "toFixed2 0 = 0"
  by (simp add: toFixed2_def)

lemma accept_state0_A:
  "emergency_accept ''A'' ''em_1'' state0 =
     (state1,
      [(''S'', Emergency_accepted ''em_1'' ''A'' ''Asha''), (''B'', Emergency_taken ''em_1'')],
      Ack_ok)"
  by (simp add: emergency_accept_def state0_def state1_def registry0_def conn_A_def em_1_def
      em_1_accepted_def)

lemma availability_state1: "status_availability ''A'' available_true state1 = state2"
  by (simp add: status_availability_def available_true_def state1_def state2_def registry0_def
      conn_A_def)

lemma rank_state1:
  "rankHelpers (connections state1) ''bike'' 0 0 = [\<lparr>sid_k = ''B'', c_k = conn_B, d_k = 0\<rparr>]"
  by (simp add: rankHelpers_def state1_def conn_A_def conn_B_def conn_C_def conn_D_def
      conn_S_def haversineKm_same radius_nonneg haversineKm_antipode_far)

lemma targets_state1:
  "targets_of (connections state1) em_1_accepted = [\<lparr>sid_k = ''B'', c_k = conn_B, d_k = 0\<rparr>]"
  using rank_state1
  by (simp add: targets_of_def em_1_accepted_def em_1_def MAX_PARALLEL_DISPATCH_def)

lemma targets_state2:
  "targets_of (connections state2) em_1_accepted =
     [\<lparr>sid_k = ''B'', c_k = conn_B, d_k = 0\<rparr>, \<lparr>sid_k = ''A'', c_k = conn_A, d_k = 0\<rparr>]"
  using rank_registry0
  by (simp add: targets_of_def em_1_accepted_def em_1_def MAX_PARALLEL_DISPATCH_def state2_def)

lemma held_by_A: "held_by ''A'' em_1_accepted" "\<not> held_by ''B'' em_1_accepted"
  by (simp_all add: held_by_def em_1_accepted_def)

lemma redispatch_state1:
  "redispatch (connections state1) em_1_accepted =
     (em_1,
      [(''B'', Dispatch ''em_1'' ''bike'' \<lparr>lat = 0, lng = 0\<rparr> 0 ''flat tyre'' 100002),
       (''S'', Dispatch_summary ''em_1'' 1)])"
proof (rule prod_eqI)
  show "fst (redispatch (connections state1) em_1_accepted) =
      fst (em_1,
        [(''B'', Dispatch ''em_1'' ''bike'' \<lparr>lat = 0, lng = 0\<rparr> 0 ''flat tyre'' 100002),
         (''S'', Dispatch_summary ''em_1'' 1)])"
    unfolding redispatch_fst targets_state1
    by (simp add: Set_add_def em_1_accepted_def em_1_def)
  show "snd (redispatch (connections state1) em_1_accepted) =
      snd (em_1,
        [(''B'', Dispatch ''em_1'' ''bike'' \<lparr>lat = 0, lng = 0\<rparr> 0 ''flat tyre'' 100002),
         (''S'', Dispatch_summary ''em_1'' 1)])"
    unfolding redispatch_snd targets_state1
    by (simp add: ping_def toFixed2_0 em_1_accepted_def em_1_def)
qed

subsection \<open>Re-dispatch and the disconnecting helper\<close>

lemma unavailable_not_ranked:
  assumes "distinct (map fst conns)" "map_of conns sock = Some c" "\<not> available c"
  shows "sock \<notin> set (map sid_k (rankHelpers conns rs la lo))"
proof
  assume "sock \<in> set (map sid_k (rankHelpers conns rs la lo))"
  then obtain k where k: "k \<in> set (rankHelpers conns rs la lo)" and sk: "sid_k k = sock"
    by auto
  from rankHelpers_member [OF k] have "(sock, c_k k) \<in> set conns" and e: "eligible rs la lo (c_k k)"
    by (simp_all add: sk)
  with assms(1) have "map_of conns sock = Some (c_k k)" by simp
  with assms(2) have "c_k k = c" by simp
  with e assms(3) show False by (simp add: eligible_def)
qed

lemma unavailable_not_target:
  assumes "distinct (map fst conns)" "map_of conns sock = Some c" "\<not> available c"
  shows "sock \<notin> set (map sid_k (targets_of conns em))"
proof -
  have "set (targets_of conns em)
      \<subseteq> set (rankHelpers conns (requiredSkill em) (lat (location_em em)) (lng (location_em em)))"
    unfolding targets_of_def by (rule set_take_subset)
  then show ?thesis
    using unavailable_not_ranked [OF assms, of "requiredSkill em" "lat (location_em em)"
        "lng (location_em em)"]
    by (simp add: image_iff subset_iff)
qed

lemma distinct_after_accept:
  "distinct (map fst (connections s)) \<Longrightarrow>
     distinct (map fst (connections (fst (emergency_accept sock eid s))))"
  by (auto simp: emergency_accept_def Let_def distinct_update split: option.splits)

lemma distinct_state0: "distinct (map fst (connections state0))"
  by (simp add: state0_def registry0_def)

lemma distinct_state1: "distinct (map fst (connections state1))"
  by (simp add: state1_def)

subsection \<open>The post handler\<close>

lemma coordinates_cases:
  "(case (get_prop (js_or (get_prop payload ''location'') (JObj [])) ''lat'',
          get_prop (js_or (get_prop payload ''location'') (JObj [])) ''lng'') of
      (JNum la, JNum lo) \<Rightarrow> f la lo
    | _ \<Rightarrow> g) =
   (case coordinates payload of Some p \<Rightarrow> f (lat p) (lng p) | None \<Rightarrow> g)"
  by (simp add: coordinates_def split: jsval.splits)

lemma emergency_post_cases:
  "emergency_post conv sock address t1 t2 t3 new_id payload s =
     (if map_of (connections s) sock = None then (s, [], Ack_error Not_connected)
      else if \<not> is_seeker s sock then (s, [], Ack_error Not_seeker)
      else if cooling s address t1 then (s, [], Ack_error Too_many_requests)
      else if normalized_skill conv payload = []
        then (s\<lparr>lastEmergencyAtByIP := AList.update (ip_of address) t2 (lastEmergencyAtByIP s)\<rparr>,
              [], Ack_error Missing_skill)
      else if coordinates payload = None
        then (s\<lparr>lastEmergencyAtByIP := AList.update (ip_of address) t2 (lastEmergencyAtByIP s)\<rparr>,
              [], Ack_error Missing_location)
      else (s\<lparr>lastEmergencyAtByIP := AList.update (ip_of address) t2 (lastEmergencyAtByIP s),
               emergencies :=
                 AList.update new_id
                   (fst (dispatchEmergency (connections s) (new_request conv sock t3 new_id payload)))
                   (emergencies s)\<rparr>,
            snd (dispatchEmergency (connections s) (new_request conv sock t3 new_id payload)),
            Ack_ok_id new_id))"
proof -
  have lastAt: "(case map_of (lastEmergencyAtByIP s) ip of
            Some t \<Rightarrow> if t \<noteq> 0 then t else 0 | None \<Rightarrow> 0) =
        (case map_of (lastEmergencyAtByIP s) ip of Some u \<Rightarrow> u | None \<Rightarrow> 0)" for ip
    by (simp split: option.splits)
  have idem: "id_em (fst (dispatchEmergency conns em)) = id_em em" for conns em
    by (simp add: dispatchEmergency_fst)
  show ?thesis
    unfolding emergency_post_def Let_def lastAt coordinates_cases
    by (simp add: is_seeker_def cooling_def ip_of_def normalized_skill_def
        new_request_def split_beta idem latlng_eta split: option.splits)
qed

subsection \<open>Creation of a request\<close>

lemma is_seeker_connected: "is_seeker s sock \<Longrightarrow> map_of (connections s) sock \<noteq> None"
  by (auto simp: is_seeker_def split: option.splits)

lemma post_keeps_connections:
  "connections (fst (emergency_post conv sock address t1 t2 t3 new_id payload s)) = connections s"
  by (simp add: emergency_post_cases)


subsection \<open>The concrete run: posts\<close>

lemma skill_post_1: "normalized_skill str_conv0 post_1 = ''bike''"
  by code_simp

lemma skill_post_no_skill: "normalized_skill str_conv0 post_no_skill = []"
  by code_simp


lemma coordinates_post_1: "coordinates post_1 = Some \<lparr>lat = 0, lng = 0\<rparr>"
  by (simp add: coordinates_def post_1_def js_or_def)


lemma new_request_post_1:
  "new_request str_conv0 ''S'' 100002 ''em_1'' post_1 = em_1\<lparr>status := Pending, responders := []\<rparr>"
  by (simp add: new_request_def skill_post_1 coordinates_post_1 em_1_def)
    (simp add: post_1_def js_or_def)

lemma targets_registry0:
  "targets_of registry0 (em_1\<lparr>status := Pending, responders := []\<rparr>) =
     [\<lparr>sid_k = ''B'', c_k = conn_B, d_k = 0\<rparr>, \<lparr>sid_k = ''A'', c_k = conn_A, d_k = 0\<rparr>]"
  using rank_registry0
  by (simp add: targets_of_def em_1_def MAX_PARALLEL_DISPATCH_def)

lemma dispatch_registry0:
  "dispatchEmergency registry0 (em_1\<lparr>status := Pending, responders := []\<rparr>) =
     (em_1,
      [(''B'', Dispatch ''em_1'' ''bike'' \<lparr>lat = 0, lng = 0\<rparr> 0 ''flat tyre'' 100002),
       (''A'', Dispatch ''em_1'' ''bike'' \<lparr>lat = 0, lng = 0\<rparr> 0 ''flat tyre'' 100002),
       (''S'', Dispatch_summary ''em_1'' 2)])"
proof (rule prod_eqI)
  show "fst (dispatchEmergency registry0 (em_1\<lparr>status := Pending, responders := []\<rparr>)) =
      fst (em_1,
        [(''B'', Dispatch ''em_1'' ''bike'' \<lparr>lat = 0, lng = 0\<rparr> 0 ''flat tyre'' 100002),
         (''A'', Dispatch ''em_1'' ''bike'' \<lparr>lat = 0, lng = 0\<rparr> 0 ''flat tyre'' 100002),
         (''S'', Dispatch_summary ''em_1'' 2)])"
    unfolding dispatchEmergency_fst targets_registry0
    by (simp add: Set_add_def em_1_def)
  show "snd (dispatchEmergency registry0 (em_1\<lparr>status := Pending, responders := []\<rparr>)) =
      snd (em_1,
        [(''B'', Dispatch ''em_1'' ''bike'' \<lparr>lat = 0, lng = 0\<rparr> 0 ''flat tyre'' 100002),
         (''A'', Dispatch ''em_1'' ''bike'' \<lparr>lat = 0, lng = 0\<rparr> 0 ''flat tyre'' 100002),
         (''S'', Dispatch_summary ''em_1'' 2)])"
    unfolding dispatchEmergency_snd targets_registry0
    by (simp add: ping_def toFixed2_0 em_1_def)
qed

lemma is_seeker_registered: "is_seeker registered ''S''" "\<not> is_seeker registered ''A''"
  by (simp_all add: is_seeker_def registered_def registry0_def conn_S_def conn_A_def)

lemma not_cooling_registered: "\<not> cooling registered (Some ''10.0.0.1'') 100000"
  by (simp add: cooling_def registered_def POST_COOLDOWN_MS_def)


lemma post_registered:
  "emergency_post str_conv0 ''S'' (Some ''10.0.0.1'') 100000 100001 100002 ''em_1'' post_1 registered =
     (state0,
      [(''B'', Dispatch ''em_1'' ''bike'' \<lparr>lat = 0, lng = 0\<rparr> 0 ''flat tyre'' 100002),
       (''A'', Dispatch ''em_1'' ''bike'' \<lparr>lat = 0, lng = 0\<rparr> 0 ''flat tyre'' 100002),
       (''S'', Dispatch_summary ''em_1'' 2)],
      Ack_ok_id ''em_1'')"
proof -
  have c: "map_of (connections registered) ''S'' \<noteq> None"
    by (rule is_seeker_connected) (rule is_seeker_registered)
  have r: "connections registered = registry0"
    by (simp add: registered_def)
  show ?thesis
    unfolding emergency_post_cases new_request_post_1 r dispatch_registry0
    using c is_seeker_registered not_cooling_registered
    by (simp add: skill_post_1 coordinates_post_1 r)
      (simp add: registered_def state0_def ip_of_def)
qed

subsection \<open>A refused post and the cooldown map\<close>

lemma post_no_skill_registered:
  "emergency_post str_conv0 ''S'' (Some ''10.0.0.1'') 100000 100001 100002 ''em_1'' post_no_skill
     registered =
     (registered\<lparr>lastEmergencyAtByIP := [(''10.0.0.1'', 100001)]\<rparr>, [], Ack_error Missing_skill)"
proof -
  have c: "map_of (connections registered) ''S'' \<noteq> None"
    by (rule is_seeker_connected) (rule is_seeker_registered)
  show ?thesis
    unfolding emergency_post_cases
    using c is_seeker_registered not_cooling_registered
    by (simp add: skill_post_no_skill) (simp add: registered_def ip_of_def)
qed

subsection \<open>Cancel and resolve on a closed request\<close>

lemma accept_closed:
  assumes "is_helper s sock" "map_of (emergencies s) eid = Some em"
    and "status em = Cancelled \<or> status em = Resolved"
  shows "emergency_accept sock eid s = (s, [], Ack_error Closed)"
  using assms by (auto simp: emergency_accept_def is_helper_def split: option.splits)

lemma cancel_by_owner:
  assumes "map_of (connections s) sock = Some c" "map_of (emergencies s) eid = Some em"
    and "seekerSocketId em = sock"
  shows "emergency_cancel sock eid s =
     (s\<lparr>emergencies := AList.update eid (em\<lparr>status := Cancelled\<rparr>) (emergencies s)\<rparr>,
      map (\<lambda>sid. (sid, Emergency_cancelled eid)) (responders em)
        @ (case assignedHelper em of
             Some a \<Rightarrow> [(socketId a, Emergency_cancelled eid)]
           | None \<Rightarrow> []),
      Ack_ok)"
  using assms by (simp add: emergency_cancel_def)

lemma resolved_by_assignee:
  assumes "map_of (connections s) sock = Some c" "map_of (emergencies s) eid = Some em"
    and "assignedHelper em = Some a" "socketId a = sock"
  shows "emergency_resolved sock eid s =
     (s\<lparr>connections := AList.update sock (c\<lparr>available := True\<rparr>) (connections s),
        emergencies := AList.update eid (em\<lparr>status := Resolved\<rparr>) (emergencies s)\<rparr>,
      [(seekerSocketId em, Emergency_resolved eid)],
      Ack_ok)"
  using assms by (simp add: emergency_resolved_def)

lemma resolved_ok_iff:
  "snd (snd (emergency_resolved sock eid s)) = Ack_ok \<longleftrightarrow>
     (\<exists>c em a. map_of (connections s) sock = Some c \<and> map_of (emergencies s) eid = Some em
        \<and> assignedHelper em = Some a \<and> socketId a = sock)"
  by (auto simp: emergency_resolved_def split: option.splits)

lemma resolved_state1:
  "emergency_resolved ''A'' ''em_1'' state1 =
     (state_resolved, [(''S'', Emergency_resolved ''em_1'')], Ack_ok)"
  by (simp add: emergency_resolved_def state1_def state_resolved_def registry0_def
      em_1_accepted_def em_1_def conn_A_def)

lemma cancel_state1:
  "emergency_cancel ''S'' ''em_1'' state1 =
     (state_cancelled,
      [(''B'', Emergency_cancelled ''em_1''), (''A'', Emergency_cancelled ''em_1''),
       (''A'', Emergency_cancelled ''em_1'')],
      Ack_ok)"
  by (simp add: emergency_cancel_def state1_def state_cancelled_def em_1_accepted_def em_1_def)

subsection \<open>The handshake\<close>

lemma lower_all_strings: "lower_all (map JStr ss) = Inr (map toLowerCase ss)"
  by (induction ss) simp_all

lemma hello_strings:
  assumes "get_prop (js_or payload (JObj [])) ''skills'' = JArr (map JStr ss)"
  shows "hello conv sock payload s =
     Inr (s\<lparr>connections :=
            AList.update sock
              \<lparr>id_c = sock,
               role = (if get_prop (js_or payload (JObj [])) ''role'' = JStr ''helper''
                       then Helper else Seeker),
               name = (case get_prop (js_or payload (JObj [])) ''name'' of
                         JStr n \<Rightarrow> if trim n \<noteq> [] then trim n else ''Guest''
                       | _ \<Rightarrow> ''Guest''),
               skills = toLowerCase ` set ss,
               location_c = None,
               available = True,
               rating =
                 (case Number_js conv
                    (if get_prop (js_or payload (JObj [])) ''rating'' = JUndefined then JNum 4.5
                     else get_prop (js_or payload (JObj [])) ''rating'') of
                    None \<Rightarrow> 4.5
                  | Some x \<Rightarrow> if x \<noteq> 0 then x else 4.5)\<rparr>
              (connections s)\<rparr>,
          Ack_ok_id sock)"
  by (simp add: hello_def Let_def assms lower_all_strings)

lemma hello_throws: "hello conv sock (JObj [(''skills'', JArr [JNum 5])]) s = Inl TypeError"
  by (simp add: hello_def js_or_def)

lemma lower_Bike: "toLowerCase '' Bike'' = '' bike''"
  by code_simp

lemma trim_lower_Bike: "trim (toLowerCase '' Bike'') = ''bike''"
  by code_simp

lemma trim_Hari: "trim ''Hari'' = ''Hari''"
  by code_simp

lemma hello_untrimmed_empty:
  "hello num_conv0 ''H'' hello_untrimmed empty_state =
     Inr (empty_state\<lparr>connections := [(''H'', conn_H)]\<rparr>, Ack_ok_id ''H'')"
  by (simp add: hello_def hello_untrimmed_def js_or_def empty_state_def conn_H_def lower_Bike
      trim_Hari)

subsection \<open>The concrete run: dispatch\<close>

lemma targets_none:
  "targets_of registry0 (em_1\<lparr>requiredSkill := ''plumbing'', status := Pending, responders := []\<rparr>)
     = []"
  by (simp add: targets_of_def rankHelpers_def registry0_def conn_A_def conn_B_def conn_C_def
      conn_D_def conn_S_def)

subsection \<open>An invariant of the stores: assigned helpers are registered\<close>

lemma in_set_update:
  "p \<in> set (AList.update k v al) \<Longrightarrow> p = (k, v) \<or> p \<in> set al"
  by (induction al) (auto split: if_splits)

lemma registered_update:
  "map_of al x \<noteq> None \<Longrightarrow> map_of (AList.update k v al) x \<noteq> None"
  by (simp add: update_conv')

lemma holders_registered_I:
  assumes "\<And>k em sock. (k, em) \<in> set (emergencies s) \<Longrightarrow> held_by sock em \<Longrightarrow>
      map_of (connections s) sock \<noteq> None"
  shows "holders_registered s"
  using assms by (auto simp: holders_registered_def)

lemma holders_registered_D:
  "holders_registered s \<Longrightarrow> (k, em) \<in> set (emergencies s) \<Longrightarrow> held_by sock em \<Longrightarrow>
     map_of (connections s) sock \<noteq> None"
  by (auto simp: holders_registered_def)

lemma holders_connections_update:
  assumes "holders_registered s"
  shows "holders_registered (s\<lparr>connections := AList.update k v (connections s)\<rparr>)"
  using assms by (auto simp: holders_registered_def update_conv')

lemma not_held_dispatched:
  "\<not> held_by sock (fst (dispatchEmergency conns em)) \<or> held_by sock em"
  by (auto simp: dispatchEmergency_fst held_by_def)

lemma holders_hello:
  assumes "holders_registered s" "hello conv sock payload s = Inr (s', a)"
  shows "holders_registered s'"
proof -
  from assms(2) obtain e where "s' = s\<lparr>connections := AList.update sock e (connections s)\<rparr>"
    by (auto simp: hello_def Let_def split: sum.splits)
  then show ?thesis using assms(1) by (simp add: holders_connections_update)
qed

lemma holders_availability:
  "holders_registered s \<Longrightarrow> holders_registered (status_availability sock v s)"
  by (auto simp: status_availability_def holders_connections_update split: option.splits)

lemma holders_location:
  "holders_registered s \<Longrightarrow> holders_registered (location_update sock t l s)"
  by (auto simp: location_update_def Let_def holders_connections_update
      split: option.splits jsval.splits)

lemma holders_post:
  assumes "holders_registered s"
  shows "holders_registered (fst (emergency_post conv sock address t1 t2 t3 new_id payload s))"
proof (rule holders_registered_I)
  fix k em h
  let ?s' = "fst (emergency_post conv sock address t1 t2 t3 new_id payload s)"
  assume m: "(k, em) \<in> set (emergencies ?s')" and h: "held_by h em"
  have c: "connections ?s' = connections s" by (rule post_keeps_connections)
  have "(k, em) \<in> set (emergencies s)
      \<or> em = fst (dispatchEmergency (connections s) (new_request conv sock t3 new_id payload))"
    using m by (auto simp: emergency_post_cases split: if_splits dest: in_set_update)
  moreover have "\<not> held_by h (fst (dispatchEmergency (connections s)
      (new_request conv sock t3 new_id payload)))"
    by (simp add: dispatchEmergency_fst held_by_def new_request_def)
  ultimately have "(k, em) \<in> set (emergencies s)" using h by auto
  then show "map_of (connections ?s') h \<noteq> None"
    using assms h c by (auto dest: holders_registered_D)
qed

lemma holders_accept:
  assumes "holders_registered s"
  shows "holders_registered (fst (emergency_accept sock eid s))"
proof (cases "accept_guard sock eid s")
  case False
  then show ?thesis using assms by (simp add: accept_rejected)
next
  case True
  then obtain c em where c: "map_of (connections s) sock = Some c"
    and em: "map_of (emergencies s) eid = Some em"
    by (auto simp: accept_guard_def is_helper_def split: option.splits)
  show ?thesis
  proof (rule holders_registered_I)
    fix k em' h
    assume m: "(k, em') \<in> set (emergencies (fst (emergency_accept sock eid s)))"
      and h: "held_by h em'"
    from m have "(k, em') \<in> set (emergencies s)
        \<or> em' = em\<lparr>assignedHelper := Some \<lparr>socketId = sock, name_a = name c\<rparr>, status := Accepted\<rparr>"
      by (auto simp: accept_commit [OF c em True] dest: in_set_update)
    then have "map_of (connections s) h \<noteq> None"
    proof
      assume "(k, em') \<in> set (emergencies s)"
      with assms h show ?thesis by (auto dest: holders_registered_D)
    next
      assume "em' = em\<lparr>assignedHelper := Some \<lparr>socketId = sock, name_a = name c\<rparr>,
          status := Accepted\<rparr>"
      with h have "h = sock" by (simp add: held_by_def)
      with c show ?thesis by simp
    qed
    then show "map_of (connections (fst (emergency_accept sock eid s))) h \<noteq> None"
      by (simp add: accept_commit [OF c em True] update_conv')
  qed
qed

lemma holders_cancel:
  assumes "holders_registered s"
  shows "holders_registered (fst (emergency_cancel sock eid s))"
proof (rule holders_registered_I)
  fix k em h
  assume m: "(k, em) \<in> set (emergencies (fst (emergency_cancel sock eid s)))"
    and h: "held_by h em"
  have c: "connections (fst (emergency_cancel sock eid s)) = connections s"
    by (auto simp: emergency_cancel_def split: option.splits)
  have "(k, em) \<in> set (emergencies s) \<or> status em = Cancelled"
    using m by (auto simp: emergency_cancel_def split: option.splits if_splits dest: in_set_update)
  with h have "(k, em) \<in> set (emergencies s)" by (auto simp: held_by_def)
  then show "map_of (connections (fst (emergency_cancel sock eid s))) h \<noteq> None"
    using assms h c by (auto dest: holders_registered_D)
qed

lemma holders_resolved:
  assumes "holders_registered s"
  shows "holders_registered (fst (emergency_resolved sock eid s))"
proof (rule holders_registered_I)
  fix k em h
  let ?s' = "fst (emergency_resolved sock eid s)"
  assume m: "(k, em) \<in> set (emergencies ?s')" and h: "held_by h em"
  have c: "map_of (connections s) x \<noteq> None \<Longrightarrow> map_of (connections ?s') x \<noteq> None" for x
    by (auto simp: emergency_resolved_def update_conv' split: option.splits)
  have "(k, em) \<in> set (emergencies s) \<or> status em = Resolved"
    using m by (auto simp: emergency_resolved_def split: option.splits if_splits dest: in_set_update)
  with h have "(k, em) \<in> set (emergencies s)" by (auto simp: held_by_def)
  then show "map_of (connections ?s') h \<noteq> None"
    using assms h c by (auto dest: holders_registered_D)
qed

lemma held_after_reopen:
  assumes "(k, em') \<in> set (fst (reopen conns sock ems))" "held_by h em'"
  shows "h \<noteq> sock \<and> (k, em') \<in> set ems"
  using assms
  by (auto simp: reopen_eq redispatch_fst held_by_def split: if_splits option.splits)

lemma holders_disconnect:
  assumes "holders_registered s"
  shows "holders_registered (fst (disconnect sock s))"
proof (cases "map_of (connections s) sock")
  case None
  then show ?thesis using assms by (simp add: disconnect_def)
next
  case (Some c)
  show ?thesis
  proof (rule holders_registered_I)
    fix k em h
    assume m: "(k, em) \<in> set (emergencies (fst (disconnect sock s)))" and h: "held_by h em"
    from m have "(k, em) \<in> set (fst (reopen (connections s) sock (emergencies s)))"
      by (simp add: disconnect_def Some split_beta)
    from held_after_reopen [OF this h] have ne: "h \<noteq> sock" and old: "(k, em) \<in> set (emergencies s)"
      by simp_all
    from assms old h have "map_of (connections s) h \<noteq> None"
      by (rule holders_registered_D)
    with ne show "map_of (connections (fst (disconnect sock s))) h \<noteq> None"
      by (simp add: disconnect_def Some split_beta delete_conv')
  qed
qed

lemma reachable_holders_registered: "reachable s \<Longrightarrow> holders_registered s"
proof (induction rule: reachable.induct)
  case start
  show ?case by (simp add: holders_registered_def empty_state_def)
qed (auto intro: holders_hello holders_availability holders_location holders_post holders_accept
    holders_cancel holders_resolved holders_disconnect)

subsection \<open>The concrete run from the empty store\<close>

lemma lower_tags:
  "toLowerCase ''Bike'' = ''bike''" "toLowerCase ''bike'' = ''bike''"
  "toLowerCase ''Tyre'' = ''tyre''" "toLowerCase ''tyre'' = ''tyre''"
  by code_simp+

lemma trim_names:
  "trim '' Asha '' = ''Asha''" "trim ''Bala'' = ''Bala''" "trim ''Chitra'' = ''Chitra''"
  "trim ''Dev'' = ''Dev''" "trim ''Sita'' = ''Sita''"
  by code_simp+

lemma join_A:
  "hello num_conv0 ''A'' hello_A (joined []) =
     Inr (joined [(''A'', conn_A\<lparr>location_c := None\<rparr>)], Ack_ok_id ''A'')"
  by (simp add: hello_def hello_A_def js_or_def joined_def conn_A_def lower_tags trim_names)

lemma locate_A:
  "location_update ''A'' 10 here (joined [(''A'', conn_A\<lparr>location_c := None\<rparr>)]) =
     joined [(''A'', conn_A)]"
  by (simp add: location_update_def here_def js_or_def joined_def conn_A_def)

lemma join_B:
  "hello num_conv0 ''B'' hello_B (joined [(''A'', conn_A)]) =
     Inr (joined [(''A'', conn_A), (''B'', conn_B\<lparr>location_c := None\<rparr>)], Ack_ok_id ''B'')"
  by (simp add: hello_def hello_B_def js_or_def joined_def conn_B_def lower_tags trim_names)

lemma locate_B:
  "location_update ''B'' 20 here (joined [(''A'', conn_A), (''B'', conn_B\<lparr>location_c := None\<rparr>)]) =
     joined [(''A'', conn_A), (''B'', conn_B)]"
  by (simp add: location_update_def here_def js_or_def joined_def conn_B_def)

lemma join_C:
  "hello num_conv0 ''C'' hello_C (joined [(''A'', conn_A), (''B'', conn_B)]) =
     Inr (joined [(''A'', conn_A), (''B'', conn_B), (''C'', conn_C\<lparr>location_c := None\<rparr>)],
          Ack_ok_id ''C'')"
  by (simp add: hello_def hello_C_def js_or_def joined_def conn_C_def lower_tags trim_names)

lemma locate_C:
  "location_update ''C'' 30 far_away
     (joined [(''A'', conn_A), (''B'', conn_B), (''C'', conn_C\<lparr>location_c := None\<rparr>)]) =
     joined [(''A'', conn_A), (''B'', conn_B), (''C'', conn_C)]"
  by (simp add: location_update_def far_away_def js_or_def joined_def conn_C_def)

lemma join_D:
  "hello num_conv0 ''D'' hello_D (joined [(''A'', conn_A), (''B'', conn_B), (''C'', conn_C)]) =
     Inr (joined [(''A'', conn_A), (''B'', conn_B), (''C'', conn_C),
            (''D'', conn_D\<lparr>location_c := None\<rparr>)],
          Ack_ok_id ''D'')"
  by (simp add: hello_def hello_D_def js_or_def joined_def conn_D_def lower_tags trim_names)

lemma locate_D:
  "location_update ''D'' 40 here
     (joined [(''A'', conn_A), (''B'', conn_B), (''C'', conn_C),
        (''D'', conn_D\<lparr>location_c := None\<rparr>)]) =
     joined [(''A'', conn_A), (''B'', conn_B), (''C'', conn_C), (''D'', conn_D)]"
  by (simp add: location_update_def here_def js_or_def joined_def conn_D_def)

lemma join_S:
  "hello num_conv0 ''S'' hello_S
     (joined [(''A'', conn_A), (''B'', conn_B), (''C'', conn_C), (''D'', conn_D)]) =
     Inr (registered, Ack_ok_id ''S'')"
  by (simp add: hello_def hello_S_def js_or_def joined_def conn_S_def registered_def registry0_def
      num_conv0_def trim_names)

lemma reachable_registered: "reachable registered"
proof -
  have r0: "reachable (joined [])"
    using start by (simp add: joined_def empty_state_def)
  have r1: "reachable (joined [(''A'', conn_A\<lparr>location_c := None\<rparr>)])"
    using r0 join_A by (rule on_hello)
  have r2: "reachable (joined [(''A'', conn_A)])"
    using on_location [OF r1, of "''A''" 10 here] unfolding locate_A .
  have r3: "reachable (joined [(''A'', conn_A), (''B'', conn_B\<lparr>location_c := None\<rparr>)])"
    using r2 join_B by (rule on_hello)
  have r4: "reachable (joined [(''A'', conn_A), (''B'', conn_B)])"
    using on_location [OF r3, of "''B''" 20 here] unfolding locate_B .
  have r5: "reachable (joined [(''A'', conn_A), (''B'', conn_B),
      (''C'', conn_C\<lparr>location_c := None\<rparr>)])"
    using r4 join_C by (rule on_hello)
  have r6: "reachable (joined [(''A'', conn_A), (''B'', conn_B), (''C'', conn_C)])"
    using on_location [OF r5, of "''C''" 30 far_away] unfolding locate_C .
  have r7: "reachable (joined [(''A'', conn_A), (''B'', conn_B), (''C'', conn_C),
      (''D'', conn_D\<lparr>location_c := None\<rparr>)])"
    using r6 join_D by (rule on_hello)
  have r8: "reachable (joined [(''A'', conn_A), (''B'', conn_B), (''C'', conn_C), (''D'', conn_D)])"
    using on_location [OF r7, of "''D''" 40 here] unfolding locate_D .
  show ?thesis
    using r8 join_S by (rule on_hello)
qed

lemma reachable_state0: "reachable state0"
  using on_post [OF reachable_registered, of str_conv0 "''S''" "Some ''10.0.0.1''" 100000 100001
      100002 "''em_1''" post_1]
  by (simp add: post_registered)

lemma reachable_state1: "reachable state1"
  using on_accept [OF reachable_state0, of "''A''" "''em_1''"]
  by (simp add: accept_state0_A)

lemma reachable_state2: "reachable state2"
  using on_availability [OF reachable_state1, of "''A''" available_true]
  by (simp add: availability_state1)

lemma reachable_state_resolved: "reachable state_resolved"
  using on_resolved [OF reachable_state1, of "''A''" "''em_1''"]
  by (simp add: resolved_state1)

lemma reachable_state_cancelled: "reachable state_cancelled"
  using on_cancel [OF reachable_state1, of "''S''" "''em_1''"]
  by (simp add: cancel_state1)

subsection \<open>An invariant of the stores: one registry entry per socket\<close>

lemma reachable_distinct: "reachable s \<Longrightarrow> distinct (map fst (connections s))"
proof (induction rule: reachable.induct)
  case start
  show ?case by (simp add: empty_state_def)
next
  case (on_hello s conv sock payload s' a)
  then show ?case
    by (auto simp: hello_def Let_def distinct_update split: sum.splits)
next
  case (on_availability s sock v)
  then show ?case
    by (auto simp: status_availability_def distinct_update split: option.splits)
next
  case (on_location s sock t l)
  then show ?case
    by (auto simp: location_update_def Let_def distinct_update split: option.splits jsval.splits)
next
  case (on_post s conv sock address t1 t2 t3 new_id payload)
  then show ?case by (simp add: post_keeps_connections)
next
  case (on_accept s sock eid)
  then show ?case by (simp add: distinct_after_accept)
next
  case (on_cancel s sock eid)
  then show ?case
    by (auto simp: emergency_cancel_def split: option.splits)
next
  case (on_resolved s sock eid)
  then show ?case
    by (auto simp: emergency_resolved_def distinct_update split: option.splits)
next
  case (on_disconnect s sock)
  then show ?case
    by (auto simp: disconnect_def split_beta distinct_delete split: option.splits)
qed

subsection \<open>The notifications of a disconnect\<close>

lemma disconnect_registered:
  assumes "map_of (connections s) sock = Some c"
  shows "connections (fst (disconnect sock s)) = AList.delete sock (connections s)"
    and "emergencies (fst (disconnect sock s)) =
           map (\<lambda>(k, em). (k, if held_by sock em then fst (redispatch (connections s) em) else em))
             (emergencies s)"
    and "snd (disconnect sock s) =
           concat (map (\<lambda>(k, em).
               if held_by sock em
               then map (ping em) (targets_of (connections s) em)
                    @ [(seekerSocketId em,
                        Dispatch_summary (id_em em) (length (targets_of (connections s) em)))]
               else [])
             (emergencies s))"
  using assms by (simp_all add: disconnect_def reopen_eq redispatch_snd cong: if_cong)

lemma disconnect_no_ping:
  assumes "distinct (map fst (connections s))" "map_of (connections s) sock = Some c"
    "\<not> available c"
  shows "\<forall>e\<in>set (snd (disconnect sock s)). is_dispatch (snd e) \<longrightarrow> fst e \<noteq> sock"
proof (intro ballI impI)
  fix e assume e: "e \<in> set (snd (disconnect sock s))" and d: "is_dispatch (snd e)"
  from e obtain k em where "(k, em) \<in> set (emergencies s)" "held_by sock em"
    and m: "e \<in> set (map (ping em) (targets_of (connections s) em)
        @ [(seekerSocketId em,
            Dispatch_summary (id_em em) (length (targets_of (connections s) em)))])"
    unfolding disconnect_registered(3) [OF assms(2)]
    by (auto split: if_splits)
  from m d obtain x where x: "x \<in> set (targets_of (connections s) em)" and ex: "e = ping em x"
    by auto
  from x unavailable_not_target [OF assms, of em] have "sid_k x \<noteq> sock" by auto
  then show "fst e \<noteq> sock" by (simp add: ex ping_def)
qed

lemma disconnect_request:
  assumes "map_of (connections s) sock = Some c" "map_of (emergencies s) eid = Some em"
    "held_by sock em"
  shows "map_of (emergencies (fst (disconnect sock s))) eid
      = Some (fst (redispatch (connections s) em))"
proof -
  have "map_of (map (\<lambda>(k, em).
          (k, if held_by sock em then fst (redispatch (connections s) em) else em))
        (emergencies s)) eid
      = map_option (\<lambda>em. if held_by sock em then fst (redispatch (connections s) em) else em)
          (map_of (emergencies s) eid)"
    by (simp add: map_of_map)
  then show ?thesis
    using assms by (simp add: disconnect_registered(2) [OF assms(1)])
qed

section \<open>The claims\<close>

subsection \<open>C1: First accept wins\<close>

text \<open>
  Claim C1, as the code has it. An accept succeeds exactly when its guard holds: the caller is a registered
  helper, the request exists, its status is neither \<open>cancelled\<close> nor \<open>resolved\<close>,
  and no helper is assigned. In a sequence of accept events for one request in which \<open>w\<close>
  is the first caller that satisfies the guard, the accepts before \<open>w\<close> fail, the accept of
  \<open>w\<close> sets \<open>assignedHelper\<close> to \<open>w\<close> and the status to \<open>accepted\<close>, and every
  later accept fails and leaves the whole store as the accept of \<open>w\<close> left it. The error of
  a later accept is \<open>taken\<close> for every caller that is a registered helper, so that later
  accepts of helpers are all answered \<open>taken\<close>; a caller that is not a registered helper
  is stopped by the first check of the handler, with \<open>not_helper\<close>. The assigned helper
  is a single optional value of the request, so at most one is set at any time.
\<close>

theorem accept_first_wins:
  "(snd (snd (emergency_accept sock eid s)) = Ack_ok \<longleftrightarrow> accept_guard sock eid s)
   \<and> ((\<forall>h\<in>set pre. \<not> accept_guard h eid s) \<and> accept_guard w eid s \<longrightarrow>
        (\<exists>em c. map_of (emergencies s) eid = Some em \<and> map_of (connections s) w = Some c
           \<and> map_of (emergencies (fst (accept_all eid (pre @ w # post) s))) eid
               = Some (em\<lparr>assignedHelper := Some \<lparr>socketId = w, name_a = name c\<rparr>,
                          status := Accepted\<rparr>))
        \<and> fst (accept_all eid (pre @ w # post) s) = fst (emergency_accept w eid s)
        \<and> snd (accept_all eid (pre @ w # post) s)
            = map (\<lambda>h. snd (snd (emergency_accept h eid s))) pre
              @ Ack_ok # map (\<lambda>h. Ack_error (if is_helper s h then Taken else Not_helper)) post
        \<and> ((\<forall>h\<in>set post. is_helper s h) \<longrightarrow>
             snd (accept_all eid (pre @ w # post) s)
               = map (\<lambda>h. snd (snd (emergency_accept h eid s))) pre
                 @ Ack_ok # replicate (length post) (Ack_error Taken))
        \<and> Ack_ok \<notin> set (map (\<lambda>h. snd (snd (emergency_accept h eid s))) pre))"
proof -
  have ok: "snd (snd (emergency_accept sock eid s)) = Ack_ok \<longleftrightarrow> accept_guard sock eid s"
    by (rule accept_ok_iff)
  have seq: "(\<exists>em c. map_of (emergencies s) eid = Some em \<and> map_of (connections s) w = Some c
           \<and> map_of (emergencies (fst (accept_all eid (pre @ w # post) s))) eid
               = Some (em\<lparr>assignedHelper := Some \<lparr>socketId = w, name_a = name c\<rparr>,
                          status := Accepted\<rparr>))
        \<and> fst (accept_all eid (pre @ w # post) s) = fst (emergency_accept w eid s)
        \<and> snd (accept_all eid (pre @ w # post) s)
            = map (\<lambda>h. snd (snd (emergency_accept h eid s))) pre
              @ Ack_ok # map (\<lambda>h. Ack_error (if is_helper s h then Taken else Not_helper)) post
        \<and> ((\<forall>h\<in>set post. is_helper s h) \<longrightarrow>
             snd (accept_all eid (pre @ w # post) s)
               = map (\<lambda>h. snd (snd (emergency_accept h eid s))) pre
                 @ Ack_ok # replicate (length post) (Ack_error Taken))
        \<and> Ack_ok \<notin> set (map (\<lambda>h. snd (snd (emergency_accept h eid s))) pre)"
    if pre: "\<forall>h\<in>set pre. \<not> accept_guard h eid s" and w: "accept_guard w eid s"
  proof -
    let ?s1 = "fst (emergency_accept w eid s)"
    from accept_assigns [OF w] obtain em c where
      em: "map_of (emergencies s) eid = Some em" and c: "map_of (connections s) w = Some c"
      and em1: "map_of (emergencies ?s1) eid
              = Some (em\<lparr>assignedHelper := Some \<lparr>socketId = w, name_a = name c\<rparr>,
                         status := Accepted\<rparr>)"
      by blast
    have later: "accept_all eid post ?s1 =
        (?s1, map (\<lambda>h. Ack_error (if is_helper ?s1 h then Taken else Not_helper)) post)"
      by (rule accept_all_when_assigned [OF em1]) simp_all
    have wack: "snd (snd (emergency_accept w eid s)) = Ack_ok"
      using w by (simp add: accept_ok_iff)
    have from_w: "accept_all eid (w # post) s =
        (?s1, Ack_ok # map (\<lambda>h. Ack_error (if is_helper s h then Taken else Not_helper)) post)"
      using later wack by (simp add: split_beta is_helper_after_accept)
    have whole: "accept_all eid (pre @ w # post) s =
        (?s1, map (\<lambda>h. snd (snd (emergency_accept h eid s))) pre
              @ Ack_ok # map (\<lambda>h. Ack_error (if is_helper s h then Taken else Not_helper)) post)"
      using accept_all_rejected [OF pre, of "w # post"] from_w by simp
    have fails: "Ack_ok \<notin> set (map (\<lambda>h. snd (snd (emergency_accept h eid s))) pre)"
      using pre accept_ok_iff [of _ eid s] by (auto simp: eq_commute [of Ack_ok])
    have helpers: "map (\<lambda>h. Ack_error (if is_helper s h then Taken else Not_helper)) post
        = replicate (length post) (Ack_error Taken)"
      if "\<forall>h\<in>set post. is_helper s h"
      using that by (induction post) simp_all
    show ?thesis
      using em c em1 whole fails helpers by simp
  qed
  from ok seq show ?thesis by blast
qed

text \<open>The theorem at the concrete run: the seeker's accept is refused, helper \<open>A\<close> wins,
  helper \<open>B\<close> is told \<open>taken\<close>.\<close>

theorem accept_first_wins_witness:
  "\<not> accept_guard ''S'' ''em_1'' state0 \<and> accept_guard ''A'' ''em_1'' state0
   \<and> snd (accept_all ''em_1'' [''S'', ''A'', ''B'', ''S''] state0)
       = [Ack_error Not_helper, Ack_ok, Ack_error Taken, Ack_error Not_helper]
   \<and> fst (accept_all ''em_1'' [''S'', ''A'', ''B'', ''S''] state0)
       = fst (emergency_accept ''A'' ''em_1'' state0)"
  using accept_first_wins [where pre = "[''S'']" and eid = "''em_1''" and s = state0
      and w = "''A''" and post = "[''B'', ''S'']"]
    accept_guard_state0_A accept_guard_state0_S is_helper_state0 accept_state0_S
  by simp


text \<open>
  Claim C1 as stated fails. In the store \<open>state0\<close>, which arises from the empty store
  by handshakes, location updates and the seeker's post, helper \<open>A\<close> accepts
  \<open>em_1\<close> and is assigned. A later accept for \<open>em_1\<close> sent by the seeker \<open>S\<close>,
  while the assignment stands, fails with \<open>not_helper\<close>, not with \<open>taken\<close>: the
  check of the caller's role comes before the check of the assignment.
\<close>

theorem later_accept_not_taken:
  "reachable state0
   \<and> emergency_accept ''A'' ''em_1'' state0 =
       (state1,
        [(''S'', Emergency_accepted ''em_1'' ''A'' ''Asha''), (''B'', Emergency_taken ''em_1'')],
        Ack_ok)
   \<and> map_option assignedHelper (map_of (emergencies state1) ''em_1'')
       = Some (Some \<lparr>socketId = ''A'', name_a = ''Asha''\<rparr>)
   \<and> map_option status (map_of (emergencies state1) ''em_1'') = Some Accepted
   \<and> emergency_accept ''S'' ''em_1'' state1 = (state1, [], Ack_error Not_helper)
   \<and> Ack_error Not_helper \<noteq> Ack_error Taken"
proof -
  have 1: "map_option assignedHelper (map_of (emergencies state1) ''em_1'')
       = Some (Some \<lparr>socketId = ''A'', name_a = ''Asha''\<rparr>)"
    by (simp add: state1_def em_1_accepted_def)
  have 2: "map_option status (map_of (emergencies state1) ''em_1'') = Some Accepted"
    by (simp add: state1_def em_1_accepted_def)
  have 3: "emergency_accept ''S'' ''em_1'' state1 = (state1, [], Ack_error Not_helper)"
    by (simp add: emergency_accept_def state1_def conn_S_def)
  from reachable_state0 accept_state0_A 1 2 3 show ?thesis by simp
qed

subsection \<open>C2: Closed requests\<close>

text \<open>
  Claim C2 fails on the code. The store \<open>state1\<close> arises from the empty store by
  handshakes, location updates, the seeker's post and the accept of helper \<open>A\<close>. After
  helper \<open>A\<close> has resolved \<open>em_1\<close>, the status is \<open>resolved\<close>. An accept of helper \<open>B\<close> is then refused with \<open>closed\<close> and changes
  nothing, as the claim says. But a cancel of the seeker is acknowledged with \<open>ok\<close>, takes
  the request from \<open>resolved\<close> to \<open>cancelled\<close> and notifies the responders; and a second
  resolve of \<open>A\<close> is acknowledged with \<open>ok\<close> and notifies the seeker again.
\<close>

theorem closed_request_is_cancelled:
  "reachable state1
   \<and> fst (emergency_resolved ''A'' ''em_1'' state1) = state_resolved
   \<and> map_option status (map_of (emergencies state_resolved) ''em_1'') = Some Resolved
   \<and> emergency_accept ''B'' ''em_1'' state_resolved = (state_resolved, [], Ack_error Closed)
   \<and> emergency_cancel ''S'' ''em_1'' state_resolved =
       (state_resolved\<lparr>emergencies := [(''em_1'', em_1_accepted\<lparr>status := Cancelled\<rparr>)]\<rparr>,
        [(''B'', Emergency_cancelled ''em_1''), (''A'', Emergency_cancelled ''em_1''),
         (''A'', Emergency_cancelled ''em_1'')],
        Ack_ok)
   \<and> emergency_resolved ''A'' ''em_1'' state_resolved =
       (state_resolved, [(''S'', Emergency_resolved ''em_1'')], Ack_ok)"
proof -
  have 1: "map_option status (map_of (emergencies state_resolved) ''em_1'') = Some Resolved"
    by (simp add: state_resolved_def)
  have 2: "emergency_accept ''B'' ''em_1'' state_resolved = (state_resolved, [], Ack_error Closed)"
    by (simp add: emergency_accept_def state_resolved_def registry0_def conn_B_def)
  have 3: "emergency_cancel ''S'' ''em_1'' state_resolved =
       (state_resolved\<lparr>emergencies := [(''em_1'', em_1_accepted\<lparr>status := Cancelled\<rparr>)]\<rparr>,
        [(''B'', Emergency_cancelled ''em_1''), (''A'', Emergency_cancelled ''em_1''),
         (''A'', Emergency_cancelled ''em_1'')],
        Ack_ok)"
    by (simp add: emergency_cancel_def state_resolved_def registry0_def em_1_accepted_def em_1_def)
  have 4: "emergency_resolved ''A'' ''em_1'' state_resolved =
       (state_resolved, [(''S'', Emergency_resolved ''em_1'')], Ack_ok)"
    by (simp add: emergency_resolved_def state_resolved_def registry0_def em_1_accepted_def
        em_1_def conn_A_def)
  from reachable_state1 1 2 3 4 show ?thesis by (simp add: resolved_state1)
qed


subsection \<open>C3: A refused post\<close>

text \<open>
  Claim C3, as the code has it. A post that is refused for a missing capability or for
  missing or non-numeric coordinates creates no request, changes no party and no request, and
  emits nothing. Its one effect on the store is on the cooldown map: the time recorded for
  the caller's address is set to the time of the refused call, because the handler records
  it before it validates the payload.
\<close>

theorem rejected_post_records_cooldown:
  "snd (snd (emergency_post conv sock address t1 t2 t3 new_id payload s)) = Ack_error Missing_skill
   \<or> snd (snd (emergency_post conv sock address t1 t2 t3 new_id payload s))
        = Ack_error Missing_location
   \<longrightarrow>
     fst (emergency_post conv sock address t1 t2 t3 new_id payload s) =
       s\<lparr>lastEmergencyAtByIP := AList.update (ip_of address) t2 (lastEmergencyAtByIP s)\<rparr>
     \<and> connections (fst (emergency_post conv sock address t1 t2 t3 new_id payload s))
         = connections s
     \<and> emergencies (fst (emergency_post conv sock address t1 t2 t3 new_id payload s))
         = emergencies s
     \<and> fst (snd (emergency_post conv sock address t1 t2 t3 new_id payload s)) = []"
  by (simp add: emergency_post_cases split: if_splits)

theorem rejected_post_records_cooldown_witness:
  "snd (snd (emergency_post str_conv0 ''S'' (Some ''10.0.0.1'') 100000 100001 100002 ''em_1''
       post_no_skill registered)) = Ack_error Missing_skill
   \<and> fst (emergency_post str_conv0 ''S'' (Some ''10.0.0.1'') 100000 100001 100002 ''em_1''
       post_no_skill registered)
      = registered\<lparr>lastEmergencyAtByIP :=
          AList.update (ip_of (Some ''10.0.0.1'')) 100001 (lastEmergencyAtByIP registered)\<rparr>
   \<and> emergencies (fst (emergency_post str_conv0 ''S'' (Some ''10.0.0.1'') 100000 100001 100002
       ''em_1'' post_no_skill registered)) = emergencies registered"
proof -
  have a: "snd (snd (emergency_post str_conv0 ''S'' (Some ''10.0.0.1'') 100000 100001 100002
       ''em_1'' post_no_skill registered)) = Ack_error Missing_skill"
    by (simp add: post_no_skill_registered)
  show ?thesis
    using a rejected_post_records_cooldown [of str_conv0 "''S''" "Some ''10.0.0.1''" 100000
        100001 100002 "''em_1''" post_no_skill registered]
    by blast
qed

text \<open>
  Claim C3 as stated fails. In the store \<open>registered\<close>, which arises from the empty
  store by handshakes and location updates, the seeker's post without a required skill is refused with
  \<open>missing_skill\<close>, and the refused call has changed the cooldown map: the entry of the
  seeker's address is new, and a well-formed post one second later is refused with
  \<open>too_many_requests\<close>.
\<close>

theorem rejected_post_changes_cooldown:
  "reachable registered
   \<and> snd (snd (emergency_post str_conv0 ''S'' (Some ''10.0.0.1'') 100000 100001 100002 ''em_1''
       post_no_skill registered)) = Ack_error Missing_skill
   \<and> lastEmergencyAtByIP registered = []
   \<and> lastEmergencyAtByIP (fst (emergency_post str_conv0 ''S'' (Some ''10.0.0.1'') 100000 100001
       100002 ''em_1'' post_no_skill registered)) = [(''10.0.0.1'', 100001)]
   \<and> fst (emergency_post str_conv0 ''S'' (Some ''10.0.0.1'') 100000 100001 100002 ''em_1''
       post_no_skill registered) \<noteq> registered
   \<and> snd (snd (emergency_post str_conv0 ''S'' (Some ''10.0.0.1'') 101000 101001 101002 ''em_1''
       post_1
       (fst (emergency_post str_conv0 ''S'' (Some ''10.0.0.1'') 100000 100001 100002 ''em_1''
          post_no_skill registered)))) = Ack_error Too_many_requests"
proof -
  let ?s1 = "registered\<lparr>lastEmergencyAtByIP := [(''10.0.0.1'', 100001)]\<rparr>"
  have ne: "?s1 \<noteq> registered"
  proof
    assume "?s1 = registered"
    then have "lastEmergencyAtByIP ?s1 = lastEmergencyAtByIP registered" by simp
    then show False by (simp add: registered_def)
  qed
  have s: "is_seeker ?s1 ''S''"
    using is_seeker_registered(1) by (simp add: is_seeker_def)
  have c: "cooling ?s1 (Some ''10.0.0.1'') 101000"
    by (simp add: cooling_def ip_of_def POST_COOLDOWN_MS_def)
  have "snd (snd (emergency_post str_conv0 ''S'' (Some ''10.0.0.1'') 101000 101001 101002 ''em_1''
       post_1 ?s1)) = Ack_error Too_many_requests"
    using s c is_seeker_connected [OF s]
    by (simp add: emergency_post_cases [of _ _ _ _ _ _ _ _ ?s1])
  with ne reachable_registered show ?thesis
    by (simp add: post_no_skill_registered) (simp add: registered_def)
qed


subsection \<open>C4: The ranking\<close>

text \<open>
  Claim C4. For every registry, the output of the ranker is the first 25 entries of a list
  that holds exactly the eligible parties (helpers that are available, have a location, have
  the required capability and are at most the search radius away from the origin), each with
  its distance, and that is ordered by distance ascending, then rating descending, then
  location timestamp descending. So the output has at most 25 entries, is ordered in that way,
  holds only eligible helpers of the registry (one that is out of range or lacks the capability
  never appears, whatever its rating), and holds all of them when there are at most 25.
\<close>

theorem rankHelpers_correct:
  "(\<exists>full.
      mset full = mset (map (as_cand la lo) (filter (\<lambda>p. eligible rs la lo (snd p)) conns))
      \<and> sorted_wrt ranks_before full
      \<and> rankHelpers conns rs la lo = take 25 full)
   \<and> length (rankHelpers conns rs la lo) \<le> 25
   \<and> sorted_wrt ranks_before (rankHelpers conns rs la lo)
   \<and> (\<forall>k\<in>set (rankHelpers conns rs la lo).
         (sid_k k, c_k k) \<in> set conns \<and> eligible rs la lo (c_k k)
         \<and> d_k k = distance_of la lo (c_k k))
   \<and> (length (filter (\<lambda>p. eligible rs la lo (snd p)) conns) \<le> 25 \<longrightarrow>
         mset (rankHelpers conns rs la lo)
           = mset (map (as_cand la lo) (filter (\<lambda>p. eligible rs la lo (snd p)) conns)))"
proof -
  let ?el = "filter (\<lambda>p. eligible rs la lo (snd p)) conns"
  let ?full = "sort_by cmp (map (as_cand la lo) ?el)"
  have r: "rankHelpers conns rs la lo = take 25 ?full"
    by (rule rankHelpers_take)
  have m: "mset ?full = mset (map (as_cand la lo) ?el)"
    by (rule mset_sort_by)
  have s: "sorted_wrt ranks_before ?full"
    by (rule sorted_sort_by)
  have 1: "\<exists>full. mset full = mset (map (as_cand la lo) ?el)
      \<and> sorted_wrt ranks_before full \<and> rankHelpers conns rs la lo = take 25 full"
    using r m s by blast
  have 2: "length (rankHelpers conns rs la lo) \<le> 25"
    by (simp add: r)
  have 3: "sorted_wrt ranks_before (rankHelpers conns rs la lo)"
    unfolding r using s by (rule sorted_wrt_take)
  have 4: "\<forall>k\<in>set (rankHelpers conns rs la lo).
         (sid_k k, c_k k) \<in> set conns \<and> eligible rs la lo (c_k k)
         \<and> d_k k = distance_of la lo (c_k k)"
    using rankHelpers_member by blast
  have 5: "length ?el \<le> 25 \<longrightarrow> mset (rankHelpers conns rs la lo) = mset (map (as_cand la lo) ?el)"
  proof
    assume "length ?el \<le> 25"
    then have "length ?full \<le> 25" by (simp add: length_sort_by)
    then have "take 25 ?full = ?full" by simp
    then show "mset (rankHelpers conns rs la lo) = mset (map (as_cand la lo) ?el)"
      using r m by simp
  qed
  from 1 2 3 4 5 show ?thesis by blast
qed

text \<open>The theorem at the registry of the concrete run: two helpers are eligible, the
  better rated one comes first.\<close>

theorem rankHelpers_correct_witness:
  "map sid_k (rankHelpers registry0 ''bike'' 0 0) = [''B'', ''A'']
   \<and> eligible ''bike'' 0 0 conn_B \<and> eligible ''bike'' 0 0 conn_A
   \<and> ranks_before \<lparr>sid_k = ''B'', c_k = conn_B, d_k = 0\<rparr> \<lparr>sid_k = ''A'', c_k = conn_A, d_k = 0\<rparr>
   \<and> (''C'', conn_C) \<in> set registry0 \<and> \<not> eligible ''bike'' 0 0 conn_C
   \<and> ''C'' \<notin> set (map sid_k (rankHelpers registry0 ''bike'' 0 0))"
proof -
  have far: "\<not> eligible ''bike'' 0 0 conn_C"
    by (simp add: eligible_def conn_C_def haversineKm_antipode_far)
  have reg: "(''C'', conn_C) \<in> set registry0"
    by (simp add: registry0_def)
  show ?thesis
    using far reg rankHelpers_correct [of 0 0 "''bike''" registry0]
    by (simp add: rank_registry0)
qed


subsection \<open>C5: The dispatch step\<close>

text \<open>
  Claim C5. The dispatch step reaches the first \<open>max(1, K)\<close> ranked candidates, with
  \<open>K = 3\<close>. Each of them is added to the responders of the request and is sent one
  dispatch notification carrying the request id, the required capability, the origin, the
  computed distance (rounded to two decimals), the note and the creation time. The status
  becomes \<open>dispatched\<close> when there is at least one candidate and is left as it was
  otherwise; no other field changes. The last notification goes to the seeker and carries the
  number of candidates reached.
\<close>

theorem dispatchEmergency_correct:
  "max 1 MAX_PARALLEL_DISPATCH = 3
   \<and> length (targets_of conns em) \<le> 3
   \<and> fst (dispatchEmergency conns em) =
       em\<lparr>responders :=
            foldl (\<lambda>r k. Set_add (sid_k k) r) (responders em) (targets_of conns em),
          status := (if targets_of conns em = [] then status em else Dispatched)\<rparr>
   \<and> set (responders (fst (dispatchEmergency conns em))) =
       set (responders em) \<union> sid_k ` set (targets_of conns em)
   \<and> snd (dispatchEmergency conns em) =
       map (ping em) (targets_of conns em)
       @ [(seekerSocketId em, Dispatch_summary (id_em em) (length (targets_of conns em)))]"
proof -
  have k: "max 1 MAX_PARALLEL_DISPATCH = 3"
    by (simp add: MAX_PARALLEL_DISPATCH_def)
  have f: "fst (dispatchEmergency conns em) =
       em\<lparr>responders :=
            foldl (\<lambda>r k. Set_add (sid_k k) r) (responders em) (targets_of conns em),
          status := (if targets_of conns em = [] then status em else Dispatched)\<rparr>"
    by (rule dispatchEmergency_fst)
  have r: "set (responders (fst (dispatchEmergency conns em))) =
       set (responders em) \<union> sid_k ` set (targets_of conns em)"
    by (simp add: f set_foldl_Set_add)
  have s: "snd (dispatchEmergency conns em) =
       map (ping em) (targets_of conns em)
       @ [(seekerSocketId em, Dispatch_summary (id_em em) (length (targets_of conns em)))]"
    by (rule dispatchEmergency_snd)
  have l: "length (targets_of conns em) \<le> 3"
    by (simp add: targets_of_def MAX_PARALLEL_DISPATCH_def)
  from k l f r s show ?thesis by blast
qed

text \<open>The theorem at the concrete run: the dispatch of \<open>em_1\<close> reaches \<open>B\<close> and
  \<open>A\<close>; a request for a skill that no helper has reaches nobody, stays \<open>pending\<close>, and
  the seeker is told so.\<close>

theorem dispatchEmergency_correct_witness:
  "targets_of registry0 (em_1\<lparr>status := Pending, responders := []\<rparr>) =
     [\<lparr>sid_k = ''B'', c_k = conn_B, d_k = 0\<rparr>, \<lparr>sid_k = ''A'', c_k = conn_A, d_k = 0\<rparr>]
   \<and> fst (dispatchEmergency registry0 (em_1\<lparr>status := Pending, responders := []\<rparr>)) = em_1
   \<and> snd (dispatchEmergency registry0 (em_1\<lparr>status := Pending, responders := []\<rparr>)) =
       [(''B'', Dispatch ''em_1'' ''bike'' \<lparr>lat = 0, lng = 0\<rparr> 0 ''flat tyre'' 100002),
        (''A'', Dispatch ''em_1'' ''bike'' \<lparr>lat = 0, lng = 0\<rparr> 0 ''flat tyre'' 100002),
        (''S'', Dispatch_summary ''em_1'' 2)]
   \<and> status (fst (dispatchEmergency registry0
        (em_1\<lparr>requiredSkill := ''plumbing'', status := Pending, responders := []\<rparr>))) = Pending
   \<and> snd (dispatchEmergency registry0
        (em_1\<lparr>requiredSkill := ''plumbing'', status := Pending, responders := []\<rparr>)) =
       [(''S'', Dispatch_summary ''em_1'' 0)]"
proof -
  have 1: "fst (dispatchEmergency registry0 (em_1\<lparr>status := Pending, responders := []\<rparr>)) = em_1
    \<and> snd (dispatchEmergency registry0 (em_1\<lparr>status := Pending, responders := []\<rparr>)) =
       [(''B'', Dispatch ''em_1'' ''bike'' \<lparr>lat = 0, lng = 0\<rparr> 0 ''flat tyre'' 100002),
        (''A'', Dispatch ''em_1'' ''bike'' \<lparr>lat = 0, lng = 0\<rparr> 0 ''flat tyre'' 100002),
        (''S'', Dispatch_summary ''em_1'' 2)]"
    using dispatchEmergency_correct [of registry0 "em_1\<lparr>status := Pending, responders := []\<rparr>"]
    unfolding targets_registry0
    by (simp add: Set_add_def ping_def toFixed2_0 em_1_def)
  have 2: "status (fst (dispatchEmergency registry0
        (em_1\<lparr>requiredSkill := ''plumbing'', status := Pending, responders := []\<rparr>))) = Pending
    \<and> snd (dispatchEmergency registry0
        (em_1\<lparr>requiredSkill := ''plumbing'', status := Pending, responders := []\<rparr>)) =
       [(''S'', Dispatch_summary ''em_1'' 0)]"
    using dispatchEmergency_correct [of registry0
        "em_1\<lparr>requiredSkill := ''plumbing'', status := Pending, responders := []\<rparr>"]
    unfolding targets_none
    by (simp add: em_1_def)
  from targets_registry0 1 2 show ?thesis by blast
qed


subsection \<open>C6: Resolving\<close>

text \<open>
  Claim C6 fails on the code. The store \<open>state1\<close> arises from the empty store by
  handshakes, location updates, the seeker's post and the accept of helper \<open>A\<close>. After
  the seeker has cancelled \<open>em_1\<close> while helper \<open>A\<close>
  was assigned, the status is \<open>cancelled\<close> and \<open>A\<close> is still the assigned helper. A
  resolve of \<open>A\<close> is then acknowledged with \<open>ok\<close>: the request goes from \<open>cancelled\<close>
  to \<open>resolved\<close>, \<open>A\<close> becomes available and the seeker is notified, although the
  request is not in status \<open>accepted\<close>.
\<close>

theorem cancelled_request_is_resolved:
  "reachable state1
   \<and> fst (emergency_cancel ''S'' ''em_1'' state1) = state_cancelled
   \<and> map_option status (map_of (emergencies state_cancelled) ''em_1'') = Some Cancelled
   \<and> emergency_resolved ''A'' ''em_1'' state_cancelled =
       (state_resolved, [(''S'', Emergency_resolved ''em_1'')], Ack_ok)
   \<and> map_option status (map_of (emergencies state_resolved) ''em_1'') = Some Resolved
   \<and> map_option available (map_of (connections state_cancelled) ''A'') = Some False
   \<and> map_option available (map_of (connections state_resolved) ''A'') = Some True"
proof -
  have 1: "map_option status (map_of (emergencies state_cancelled) ''em_1'') = Some Cancelled"
    by (simp add: state_cancelled_def)
  have 2: "emergency_resolved ''A'' ''em_1'' state_cancelled =
       (state_resolved, [(''S'', Emergency_resolved ''em_1'')], Ack_ok)"
    by (simp add: emergency_resolved_def state_cancelled_def state1_def state_resolved_def
        registry0_def em_1_accepted_def em_1_def conn_A_def)
  have 3: "map_option status (map_of (emergencies state_resolved) ''em_1'') = Some Resolved"
    by (simp add: state_resolved_def)
  have 4: "map_option available (map_of (connections state_cancelled) ''A'') = Some False"
    by (simp add: state_cancelled_def state1_def)
  have 5: "map_option available (map_of (connections state_resolved) ''A'') = Some True"
    by (simp add: state_resolved_def registry0_def conn_A_def)
  from reachable_state1 1 2 3 4 5 show ?thesis by (simp add: cancel_state1)
qed


subsection \<open>C7: Loss of the assigned helper\<close>

text \<open>
  Claim C7. In every store the handlers can produce, the assigned helper of a request in
  status \<open>accepted\<close> is a registered party. When a registered party disconnects, every
  request that is in status \<open>accepted\<close> with that party as its assigned helper is
  reopened: the assigned helper is cleared, the status is set to \<open>pending\<close> and the
  dispatch step runs at once on the registry as it is at the disconnect, so that the request
  ends \<open>dispatched\<close> when the fresh ranking has a candidate and \<open>pending\<close> when it has
  none. Every other request (assigned to another party, or not in status \<open>accepted\<close>) is
  left as it was. The party is removed from the registry afterwards.
\<close>

theorem disconnect_reopens:
  "(reachable s \<and> (k0, em0) \<in> set (emergencies s) \<and> held_by sock em0
      \<longrightarrow> map_of (connections s) sock \<noteq> None)
   \<and> (map_of (connections s) sock \<noteq> None \<longrightarrow>
       connections (fst (disconnect sock s)) = AList.delete sock (connections s)
       \<and> lastEmergencyAtByIP (fst (disconnect sock s)) = lastEmergencyAtByIP s
       \<and> emergencies (fst (disconnect sock s)) =
           map (\<lambda>(k, em). (k, if held_by sock em then fst (redispatch (connections s) em) else em))
             (emergencies s)
       \<and> snd (disconnect sock s) =
           concat (map (\<lambda>(k, em). if held_by sock em then snd (redispatch (connections s) em) else [])
             (emergencies s))
       \<and> (\<forall>em. fst (redispatch (connections s) em) =
             em\<lparr>assignedHelper := None,
                status := (if targets_of (connections s) em = [] then Pending else Dispatched),
                responders :=
                  foldl (\<lambda>r k. Set_add (sid_k k) r) (responders em)
                    (targets_of (connections s) em)\<rparr>
           \<and> snd (redispatch (connections s) em) =
               map (ping em) (targets_of (connections s) em)
               @ [(seekerSocketId em,
                   Dispatch_summary (id_em em) (length (targets_of (connections s) em)))]))"
proof -
  have 1: "map_of (connections s) sock \<noteq> None"
    if "reachable s \<and> (k0, em0) \<in> set (emergencies s) \<and> held_by sock em0"
    using that reachable_holders_registered holders_registered_D by blast
  have 2: "connections (fst (disconnect sock s)) = AList.delete sock (connections s)
       \<and> lastEmergencyAtByIP (fst (disconnect sock s)) = lastEmergencyAtByIP s
       \<and> emergencies (fst (disconnect sock s)) =
           map (\<lambda>(k, em). (k, if held_by sock em then fst (redispatch (connections s) em) else em))
             (emergencies s)
       \<and> snd (disconnect sock s) =
           concat (map (\<lambda>(k, em). if held_by sock em then snd (redispatch (connections s) em) else [])
             (emergencies s))"
    if "map_of (connections s) sock \<noteq> None"
    using that by (auto simp: disconnect_def reopen_eq)
  have 3: "fst (redispatch (connections s) em) =
             em\<lparr>assignedHelper := None,
                status := (if targets_of (connections s) em = [] then Pending else Dispatched),
                responders :=
                  foldl (\<lambda>r k. Set_add (sid_k k) r) (responders em)
                    (targets_of (connections s) em)\<rparr>
           \<and> snd (redispatch (connections s) em) =
               map (ping em) (targets_of (connections s) em)
               @ [(seekerSocketId em,
                   Dispatch_summary (id_em em) (length (targets_of (connections s) em)))]" for em
    by (simp add: redispatch_fst redispatch_snd)
  from 1 2 3 show ?thesis by blast
qed

text \<open>The theorem at the concrete run: helper \<open>A\<close>, assigned to \<open>em_1\<close>, disconnects
  and the request is dispatched again, to \<open>B\<close> alone; when \<open>B\<close> disconnects instead,
  the request is left as it was.\<close>

theorem disconnect_reopens_witness:
  "reachable state1 \<and> (''em_1'', em_1_accepted) \<in> set (emergencies state1)
   \<and> held_by ''A'' em_1_accepted
   \<and> map_of (connections state1) ''A'' = Some (conn_A\<lparr>available := False\<rparr>)
   \<and> emergencies (fst (disconnect ''A'' state1)) = [(''em_1'', em_1)]
   \<and> snd (disconnect ''A'' state1) =
       [(''B'', Dispatch ''em_1'' ''bike'' \<lparr>lat = 0, lng = 0\<rparr> 0 ''flat tyre'' 100002),
        (''S'', Dispatch_summary ''em_1'' 1)]
   \<and> map_of (connections state1) ''B'' = Some conn_B
   \<and> emergencies (fst (disconnect ''B'' state1)) = emergencies state1"
proof -
  have a: "map_of (connections state1) ''A'' = Some (conn_A\<lparr>available := False\<rparr>)"
    by (simp add: state1_def)
  have b: "map_of (connections state1) ''B'' = Some conn_B"
    by (simp add: state1_def)
  have e: "emergencies state1 = [(''em_1'', em_1_accepted)]"
    by (simp add: state1_def)
  have m: "(''em_1'', em_1_accepted) \<in> set (emergencies state1)"
    by (simp add: e)
  have na: "map_of (connections state1) ''A'' \<noteq> None"
    using reachable_state1 m held_by_A(1)
      disconnect_reopens [of state1 "''em_1''" em_1_accepted "''A''"]
    by blast
  have nb: "map_of (connections state1) ''B'' \<noteq> None"
    using b by simp
  have da: "emergencies (fst (disconnect ''A'' state1)) = [(''em_1'', em_1)]
      \<and> snd (disconnect ''A'' state1) =
       [(''B'', Dispatch ''em_1'' ''bike'' \<lparr>lat = 0, lng = 0\<rparr> 0 ''flat tyre'' 100002),
        (''S'', Dispatch_summary ''em_1'' 1)]"
    using na disconnect_reopens [of state1 _ _ "''A''"]
    by (simp add: e held_by_A redispatch_state1)
  have db: "emergencies (fst (disconnect ''B'' state1)) = emergencies state1"
    using nb disconnect_reopens [of state1 _ _ "''B''"]
    by (simp add: e held_by_A)
  from reachable_state1 m held_by_A(1) a b da db show ?thesis by blast
qed


subsection \<open>C8: The handshake\<close>

text \<open>
  Claim C8 fails on the code. The handshake \<open>{ role: 'helper', name: 'Hari', skills: [' Bike'] }\<close>
  registers the skill \<open>' bike'\<close>: lower-cased, not trimmed. The lower-cased and trimmed tag
  is \<open>'bike'\<close>, which is also what the post handler makes of a required skill; it is not in
  the stored set, so the ranker does not find this helper for the skill \<open>'bike'\<close> although
  the helper is available at the seeker's position.
\<close>

theorem hello_keeps_whitespace:
  "hello num_conv0 ''H'' hello_untrimmed empty_state =
     Inr (empty_state\<lparr>connections := [(''H'', conn_H)]\<rparr>, Ack_ok_id ''H'')
   \<and> skills conn_H = {'' bike''}
   \<and> trim (toLowerCase '' Bike'') = ''bike''
   \<and> ''bike'' \<notin> skills conn_H
   \<and> normalized_skill str_conv0 post_1 = ''bike''
   \<and> rankHelpers
        (connections (location_update ''H'' 10 here (empty_state\<lparr>connections := [(''H'', conn_H)]\<rparr>)))
        ''bike'' 0 0 = []
   \<and> map sid_k (rankHelpers
        (connections (location_update ''H'' 10 here (empty_state\<lparr>connections := [(''H'', conn_H)]\<rparr>)))
        '' bike'' 0 0) = [''H'']"
proof -
  have l: "connections (location_update ''H'' 10 here (empty_state\<lparr>connections := [(''H'', conn_H)]\<rparr>))
      = [(''H'', conn_H\<lparr>location_c := Some \<lparr>lat = 0, lng = 0, updatedAt = 10\<rparr>\<rparr>)]"
    by (simp add: location_update_def here_def js_or_def empty_state_def)
  have 1: "skills conn_H = {'' bike''}" "''bike'' \<notin> skills conn_H"
    by (simp_all add: conn_H_def)
  have 2: "rankHelpers [(''H'', conn_H\<lparr>location_c := Some \<lparr>lat = 0, lng = 0, updatedAt = 10\<rparr>\<rparr>)]
      ''bike'' 0 0 = []"
    by (simp add: rankHelpers_def conn_H_def)
  have 3: "map sid_k
      (rankHelpers [(''H'', conn_H\<lparr>location_c := Some \<lparr>lat = 0, lng = 0, updatedAt = 10\<rparr>\<rparr>)]
        '' bike'' 0 0) = [''H'']"
    by (simp add: rankHelpers_def conn_H_def haversineKm_same radius_nonneg)
  show ?thesis
    unfolding l using 1 2 3 hello_untrimmed_empty trim_lower_Bike skill_post_1 by simp
qed


subsection \<open>C9: Posting a request\<close>



subsection \<open>C10: Re-dispatch and the disconnecting helper\<close>

text \<open>
  Claim C10, as the code has it. A successful accept sets the availability of the accepting
  helper to false. In a registry with one entry per socket id (every store the handlers can
  produce has such a registry), when a party whose availability is false disconnects, the
  re-dispatch of every request it held runs on the registry that still holds its entry; yet
  the party is in no candidate list and among no targets, and no dispatch notification of the
  disconnect is addressed to it. Its entry is removed from the registry afterwards. In
  particular, when a helper disconnects right after its accept, its request is re-dispatched
  and the helper is not among the targets.
\<close>

theorem unavailable_helper_not_reranked:
  "(reachable s \<longrightarrow> distinct (map fst (connections s)))
   \<and> (distinct (map fst (connections s)) \<and> map_of (connections s) sock = Some c \<and> \<not> available c
      \<longrightarrow> sock \<notin> set (map sid_k (rankHelpers (connections s) rs la lo))
          \<and> sock \<notin> set (map sid_k (targets_of (connections s) em))
          \<and> emergencies (fst (disconnect sock s)) =
              map (\<lambda>(k, em).
                  (k, if held_by sock em then fst (redispatch (connections s) em) else em))
                (emergencies s)
          \<and> snd (disconnect sock s) =
              concat (map (\<lambda>(k, em).
                  if held_by sock em
                  then map (ping em) (targets_of (connections s) em)
                       @ [(seekerSocketId em,
                           Dispatch_summary (id_em em) (length (targets_of (connections s) em)))]
                  else [])
                (emergencies s))
          \<and> (\<forall>e\<in>set (snd (disconnect sock s)). is_dispatch (snd e) \<longrightarrow> fst e \<noteq> sock)
          \<and> connections (fst (disconnect sock s)) = AList.delete sock (connections s))
   \<and> (distinct (map fst (connections s)) \<and> accept_guard sock eid s
      \<longrightarrow> (\<exists>c'. map_of (connections (fst (emergency_accept sock eid s))) sock = Some c'
                \<and> \<not> available c')
          \<and> sock \<notin> set (map sid_k
                (rankHelpers (connections (fst (emergency_accept sock eid s))) rs la lo))
          \<and> sock \<notin> set (map sid_k
                (targets_of (connections (fst (emergency_accept sock eid s))) em))
          \<and> (\<exists>em1. map_of (emergencies (fst (emergency_accept sock eid s))) eid = Some em1
                \<and> held_by sock em1
                \<and> map_of (emergencies
                     (fst (disconnect sock (fst (emergency_accept sock eid s))))) eid
                    = Some (fst (redispatch (connections (fst (emergency_accept sock eid s))) em1))
                \<and> sock \<notin> set (map sid_k
                     (targets_of (connections (fst (emergency_accept sock eid s))) em1)))
          \<and> (\<forall>e\<in>set (snd (disconnect sock (fst (emergency_accept sock eid s)))).
                is_dispatch (snd e) \<longrightarrow> fst e \<noteq> sock))"
proof -
  have 0: "reachable s \<longrightarrow> distinct (map fst (connections s))"
    using reachable_distinct by blast
  have 1: "sock \<notin> set (map sid_k (rankHelpers (connections s) rs la lo))
          \<and> sock \<notin> set (map sid_k (targets_of (connections s) em))
          \<and> emergencies (fst (disconnect sock s)) =
              map (\<lambda>(k, em).
                  (k, if held_by sock em then fst (redispatch (connections s) em) else em))
                (emergencies s)
          \<and> snd (disconnect sock s) =
              concat (map (\<lambda>(k, em).
                  if held_by sock em
                  then map (ping em) (targets_of (connections s) em)
                       @ [(seekerSocketId em,
                           Dispatch_summary (id_em em) (length (targets_of (connections s) em)))]
                  else [])
                (emergencies s))
          \<and> (\<forall>e\<in>set (snd (disconnect sock s)). is_dispatch (snd e) \<longrightarrow> fst e \<noteq> sock)
          \<and> connections (fst (disconnect sock s)) = AList.delete sock (connections s)"
    if t: "distinct (map fst (connections s))" "map_of (connections s) sock = Some c"
      "\<not> available c"
    using unavailable_not_ranked [OF t] unavailable_not_target [OF t]
      disconnect_registered [OF t(2)] disconnect_no_ping [OF t]
    by simp
  have 2: "(\<exists>c'. map_of (connections (fst (emergency_accept sock eid s))) sock = Some c'
                \<and> \<not> available c')
          \<and> sock \<notin> set (map sid_k
                (rankHelpers (connections (fst (emergency_accept sock eid s))) rs la lo))
          \<and> sock \<notin> set (map sid_k
                (targets_of (connections (fst (emergency_accept sock eid s))) em))
          \<and> (\<exists>em1. map_of (emergencies (fst (emergency_accept sock eid s))) eid = Some em1
                \<and> held_by sock em1
                \<and> map_of (emergencies
                     (fst (disconnect sock (fst (emergency_accept sock eid s))))) eid
                    = Some (fst (redispatch (connections (fst (emergency_accept sock eid s))) em1))
                \<and> sock \<notin> set (map sid_k
                     (targets_of (connections (fst (emergency_accept sock eid s))) em1)))
          \<and> (\<forall>e\<in>set (snd (disconnect sock (fst (emergency_accept sock eid s)))).
                is_dispatch (snd e) \<longrightarrow> fst e \<noteq> sock)"
    if d: "distinct (map fst (connections s))" and g: "accept_guard sock eid s"
  proof -
    let ?s1 = "fst (emergency_accept sock eid s)"
    from accept_assigns [OF g] obtain em0 c0 where
      em1: "map_of (emergencies ?s1) eid
          = Some (em0\<lparr>assignedHelper := Some \<lparr>socketId = sock, name_a = name c0\<rparr>,
                     status := Accepted\<rparr>)"
      and c1: "map_of (connections ?s1) sock = Some (c0\<lparr>available := False\<rparr>)"
      by blast
    let ?em1 = "em0\<lparr>assignedHelper := Some \<lparr>socketId = sock, name_a = name c0\<rparr>,
        status := Accepted\<rparr>"
    have d1: "distinct (map fst (connections ?s1))"
      using d by (rule distinct_after_accept)
    have na: "\<not> available (c0\<lparr>available := False\<rparr>)" by simp
    have h: "held_by sock ?em1" by (simp add: held_by_def)
    have r: "map_of (emergencies (fst (disconnect sock ?s1))) eid
        = Some (fst (redispatch (connections ?s1) ?em1))"
      using c1 em1 h by (rule disconnect_request)
    have t: "sock \<notin> set (map sid_k (targets_of (connections ?s1) ?em1))"
      using d1 c1 na by (rule unavailable_not_target)
    have x: "\<exists>em1. map_of (emergencies ?s1) eid = Some em1 \<and> held_by sock em1
        \<and> map_of (emergencies (fst (disconnect sock ?s1))) eid
            = Some (fst (redispatch (connections ?s1) em1))
        \<and> sock \<notin> set (map sid_k (targets_of (connections ?s1) em1))"
      using em1 h r t by blast
    show ?thesis
      using c1 na unavailable_not_ranked [OF d1 c1 na] unavailable_not_target [OF d1 c1 na]
        x disconnect_no_ping [OF d1 c1 na]
      by blast
  qed
  from 0 1 2 show ?thesis by blast
qed

text \<open>The theorem at the concrete run: helper \<open>A\<close>, assigned to \<open>em_1\<close> and not
  available, disconnects; the re-dispatch reaches \<open>B\<close> alone.\<close>

theorem unavailable_helper_not_reranked_witness:
  "reachable state1
   \<and> distinct (map fst (connections state1))
   \<and> map_of (connections state1) ''A'' = Some (conn_A\<lparr>available := False\<rparr>)
   \<and> \<not> available (conn_A\<lparr>available := False\<rparr>)
   \<and> ''A'' \<notin> set (map sid_k (rankHelpers (connections state1) ''bike'' 0 0))
   \<and> snd (disconnect ''A'' state1) =
       [(''B'', Dispatch ''em_1'' ''bike'' \<lparr>lat = 0, lng = 0\<rparr> 0 ''flat tyre'' 100002),
        (''S'', Dispatch_summary ''em_1'' 1)]
   \<and> (''A'', Dispatch ''em_1'' ''bike'' \<lparr>lat = 0, lng = 0\<rparr> 0 ''flat tyre'' 100002)
       \<notin> set (snd (disconnect ''A'' state1))
   \<and> distinct (map fst (connections state0))
   \<and> accept_guard ''A'' ''em_1'' state0
   \<and> ''A'' \<notin> set (map sid_k
        (rankHelpers (connections (fst (emergency_accept ''A'' ''em_1'' state0))) ''bike'' 0 0))
   \<and> (''A'', Dispatch ''em_1'' ''bike'' \<lparr>lat = 0, lng = 0\<rparr> 0 ''flat tyre'' 100002)
       \<notin> set (snd (disconnect ''A'' (fst (emergency_accept ''A'' ''em_1'' state0))))"
proof -
  have a: "map_of (connections state1) ''A'' = Some (conn_A\<lparr>available := False\<rparr>)"
    by (simp add: state1_def)
  have n: "\<not> available (conn_A\<lparr>available := False\<rparr>)" by simp
  have d: "distinct (map fst (connections state1))"
    using reachable_state1
      unavailable_helper_not_reranked [of state1 "''A''" "conn_A\<lparr>available := False\<rparr>" "''bike''" 0 0]
    by blast
  note t1 = unavailable_helper_not_reranked
      [of state1 "''A''" "conn_A\<lparr>available := False\<rparr>" "''bike''" 0 0]
  note t0 = unavailable_helper_not_reranked [of state0 "''A''" _ "''bike''" 0 0 _ "''em_1''"]
  have e: "emergencies state1 = [(''em_1'', em_1_accepted)]"
    by (simp add: state1_def)
  have r: "''A'' \<notin> set (map sid_k (rankHelpers (connections state1) ''bike'' 0 0))"
    using a n d t1 by blast
  have o: "snd (disconnect ''A'' state1) =
       [(''B'', Dispatch ''em_1'' ''bike'' \<lparr>lat = 0, lng = 0\<rparr> 0 ''flat tyre'' 100002),
        (''S'', Dispatch_summary ''em_1'' 1)]"
  proof -
    have "snd (disconnect ''A'' state1) =
        map (ping em_1_accepted) (targets_of (connections state1) em_1_accepted)
        @ [(seekerSocketId em_1_accepted,
            Dispatch_summary (id_em em_1_accepted)
              (length (targets_of (connections state1) em_1_accepted)))]"
      using a n d t1 by (simp add: e held_by_A)
    then show ?thesis
      unfolding targets_state1 by (simp add: ping_def toFixed2_0 em_1_accepted_def em_1_def)
  qed
  have p1: "(''A'', Dispatch ''em_1'' ''bike'' \<lparr>lat = 0, lng = 0\<rparr> 0 ''flat tyre'' 100002)
       \<notin> set (snd (disconnect ''A'' state1))"
    using a n d t1 by fastforce
  have r0: "''A'' \<notin> set (map sid_k
        (rankHelpers (connections (fst (emergency_accept ''A'' ''em_1'' state0))) ''bike'' 0 0))"
    using distinct_state0 accept_guard_state0_A t0 by blast
  have p0: "(''A'', Dispatch ''em_1'' ''bike'' \<lparr>lat = 0, lng = 0\<rparr> 0 ''flat tyre'' 100002)
       \<notin> set (snd (disconnect ''A'' (fst (emergency_accept ''A'' ''em_1'' state0))))"
    using distinct_state0 accept_guard_state0_A t0 by fastforce
  from reachable_state1 d a n r o p1 distinct_state0 accept_guard_state0_A r0 p0
  show ?thesis by blast
qed

text \<open>
  Claim C10 as stated fails. In the store \<open>state0\<close>, which arises from the empty
  store by handshakes, location updates and the seeker's post, helper \<open>A\<close> accepts \<open>em_1\<close>, then sends
  \<open>{ available: true }\<close>, then disconnects: the re-dispatch of \<open>em_1\<close> ranks \<open>A\<close>
  and sends it a dispatch notification.
\<close>

theorem redispatch_reaches_disconnecting_helper:
  "reachable state0
   \<and> fst (emergency_accept ''A'' ''em_1'' state0) = state1
   \<and> ''A'' \<in> set (map sid_k
        (rankHelpers
          (connections (status_availability ''A'' available_true
             (fst (emergency_accept ''A'' ''em_1'' state0))))
          ''bike'' 0 0))
   \<and> (''A'', Dispatch ''em_1'' ''bike'' \<lparr>lat = 0, lng = 0\<rparr> 0 ''flat tyre'' 100002)
       \<in> set (snd (disconnect ''A''
            (status_availability ''A'' available_true
               (fst (emergency_accept ''A'' ''em_1'' state0)))))"
proof -
  have s2: "status_availability ''A'' available_true (fst (emergency_accept ''A'' ''em_1'' state0))
      = state2"
    by (simp add: accept_state0_A availability_state1)
  have r: "''A'' \<in> set (map sid_k (rankHelpers (connections state2) ''bike'' 0 0))"
    by (simp add: state2_def rank_registry0)
  have c: "map_of (connections state2) ''A'' = Some conn_A"
    by (simp add: state2_def registry0_def)
  have e: "emergencies state2 = [(''em_1'', em_1_accepted)]"
    by (simp add: state2_def)
  have "snd (disconnect ''A'' state2) =
      snd (redispatch (connections state2) em_1_accepted)"
    by (simp add: disconnect_def c reopen_eq e held_by_A)
  also have "\<dots> = map (ping em_1_accepted) (targets_of (connections state2) em_1_accepted)
      @ [(seekerSocketId em_1_accepted,
          Dispatch_summary (id_em em_1_accepted)
            (length (targets_of (connections state2) em_1_accepted)))]"
    by (rule redispatch_snd)
  finally have "(''A'', Dispatch ''em_1'' ''bike'' \<lparr>lat = 0, lng = 0\<rparr> 0 ''flat tyre'' 100002)
       \<in> set (snd (disconnect ''A'' state2))"
    unfolding targets_state2 by (simp add: ping_def toFixed2_0 em_1_accepted_def em_1_def)
  with s2 r reachable_state0 show ?thesis by (simp add: accept_state0_A)
qed


end
